theory Spec2Isabelle
  imports Main "HOL-Library.Word"
begin

unbundle bit_operations_syntax

section \<open>Bytes, sizes and failures\<close>

type_synonym byte = "8 word"
type_synonym bytes = "byte list"

text \<open>
  Every way in which the modelled functions can leave without a value:
  \<^item> \<open>LengthError\<close>: \<open>std::vector::resize\<close> asked for more than \<open>max_size()\<close> elements
    (\<open>std::length_error\<close>);
  \<^item> \<open>AssertionFailed\<close>: an \<open>assert\<close> of the source does not hold;
  \<^item> \<open>RuntimeError\<close>: a \<open>throw std::runtime_error\<close> of the source;
  \<^item> \<open>UndefinedBehaviour\<close>: a library precondition is violated (erasing a list's
    past-the-end iterator);
  \<^item> \<open>AlignmentFault\<close>: an aligned 16-byte vector load or store at an address that is
    not a multiple of 16 (a general protection fault).
\<close>

datatype error =
    LengthError
  | AssertionFailed
  | RuntimeError string
  | UndefinedBehaviour
  | AlignmentFault

text \<open>\<open>std::size_t\<close> is 64 bits wide; subtraction wraps around.\<close>

definition SIZE_T_MODULUS :: nat where
  "SIZE_T_MODULUS = 2 ^ 64"

definition size_t_add :: "nat \<Rightarrow> nat \<Rightarrow> nat" where
  "size_t_add a b = (a + b) mod SIZE_T_MODULUS"

definition size_t_sub :: "nat \<Rightarrow> nat \<Rightarrow> nat" where
  "size_t_sub a b = (a + SIZE_T_MODULUS - b mod SIZE_T_MODULUS) mod SIZE_T_MODULUS"

text \<open>
  \<open>std::vector<uint8_t>::resize(n)\<close> on an empty vector: \<open>n\<close> zero bytes, or
  \<open>std::length_error\<close> when \<open>n\<close> exceeds \<open>max_size()\<close>, which is \<open>PTRDIFF_MAX\<close> for a
  vector of bytes.
\<close>

definition vector_max_size :: nat where
  "vector_max_size = 2 ^ 63 - 1"

definition vector_resize :: "nat \<Rightarrow> error + bytes" where
  "vector_resize n = (if n > vector_max_size then Inl LengthError else Inr (replicate n 0))"

text \<open>\<open>memcpy(buf + off, xs, length xs)\<close>, and a C routine writing \<open>xs\<close> at \<open>buf + off\<close>.\<close>

definition write_at :: "bytes \<Rightarrow> nat \<Rightarrow> bytes \<Rightarrow> bytes" where
  "write_at buf off xs = take off buf @ xs @ drop (off + length xs) buf"

text \<open>\<open>memcmp(a, b, n) != 0\<close>: the first \<open>n\<close> bytes differ somewhere.\<close>

definition memcmp_differs :: "bytes \<Rightarrow> bytes \<Rightarrow> nat \<Rightarrow> bool" where
  "memcmp_differs a b n = (take n a \<noteq> take n b)"

text \<open>The in-memory bytes of an unsigned integer on the little-endian targets.\<close>

definition le_bytes :: "nat \<Rightarrow> 'a::len word \<Rightarrow> bytes" where
  "le_bytes n w = map (\<lambda>i. ucast (drop_bit (8 * i) w)) [0..<n]"

section \<open>Encryption.hpp\<close>

subsection \<open>libsodium constants\<close>

definition crypto_aead_chacha20poly1305_ABYTES :: nat where
  "crypto_aead_chacha20poly1305_ABYTES = 16"

definition crypto_aead_chacha20poly1305_KEYBYTES :: nat where
  "crypto_aead_chacha20poly1305_KEYBYTES = 32"

text \<open>
  The source calls \<open>crypto_aead_chacha20poly1305_encrypt\<close> and \<open>_decrypt\<close>, the original
  construction (not the \<open>_ietf_\<close> one), whose public nonce has
  \<open>crypto_aead_chacha20poly1305_NPUBBYTES = 8\<close> bytes: the cipher reads that many bytes
  at the \<open>npub\<close> pointer.
\<close>

definition crypto_aead_chacha20poly1305_NPUBBYTES :: nat where
  "crypto_aead_chacha20poly1305_NPUBBYTES = 8"

definition crypto_box_SECRETKEYBYTES :: nat where
  "crypto_box_SECRETKEYBYTES = 32"

definition crypto_box_PUBLICKEYBYTES :: nat where
  "crypto_box_PUBLICKEYBYTES = 32"

definition DEFAULT_ENCRYPTION_SEED :: bytes where
  "DEFAULT_ENCRYPTION_SEED = replicate 32 0"

subsection \<open>Packet headers\<close>

text \<open>
  Modelled from the spec: the declaration of \<open>WBDataHeader\<close> (wifibroadcast.hpp) is
  missing. The spec gives the 11-byte cleartext header as one byte of radio port or
  packet type, the 8-byte nonce and a 2-byte sequence number; WBTransmitter.cpp
  constructs it as \<open>WBDataHeader(nonce, m_curr_seq_nr)\<close>. The struct is packed, so the
  nonce field lies at byte offset 1.
\<close>

record WBDataHeader =
  packet_type :: byte
  nonce :: "64 word"
  sequence_number_extra :: "16 word"

definition sizeof_WBDataHeader :: nat where
  "sizeof_WBDataHeader = 11"

definition offsetof_nonce :: nat where
  "offsetof_nonce = 1"

definition header_bytes :: "WBDataHeader \<Rightarrow> bytes" where
  "header_bytes h = packet_type h # le_bytes 8 (nonce h) @ le_bytes 2 (sequence_number_extra h)"

text \<open>
  Modelled from the spec: the declaration of \<open>WBSessionKeyPacket\<close> (wifibroadcast.hpp) is
  missing. The spec gives the announcement as a 24-byte nonce followed by the 48-byte
  sealed key; the two fields are the ones Encryption.hpp reads.
\<close>

record WBSessionKeyPacket =
  session_key_nonce :: bytes
  session_key_data :: bytes

subsection \<open>The cipher, as the source calls it\<close>

text \<open>
  The arguments of one call of \<open>crypto_aead_chacha20poly1305_encrypt\<close> or
  \<open>crypto_aead_chacha20poly1305_decrypt\<close>: message or ciphertext, associated data,
  public nonce and key. The two library functions are parameters of the model:
  encryption returns the ciphertext with its tag, decryption returns \<open>None\<close> when the
  library returns non-zero (the tag does not verify).
\<close>

record aead_args =
  a_msg :: bytes
  a_ad :: bytes
  a_npub :: bytes
  a_key :: bytes

type_synonym aead_encrypt = "aead_args \<Rightarrow> bytes"
type_synonym aead_decrypt = "aead_args \<Rightarrow> bytes option"

text \<open>
  \<open>crypto_box_open_easy(m, c, clen, n, pk, sk)\<close> as a parameter: ciphertext, nonce,
  public key, secret key; \<open>None\<close> when the library returns non-zero.
\<close>

type_synonym box_open = "bytes \<Rightarrow> bytes \<Rightarrow> bytes \<Rightarrow> bytes \<Rightarrow> bytes option"

text \<open>\<open>(uint8_t *) (&(wblockHdr.nonce))\<close>: what the cipher reads at that address.\<close>

definition npub_of_header :: "WBDataHeader \<Rightarrow> bytes" where
  "npub_of_header h =
     take crypto_aead_chacha20poly1305_NPUBBYTES (drop offsetof_nonce (header_bytes h))"

subsection \<open>Encryptor\<close>

record Encryptor =
  tx_secretkey :: bytes
  rx_publickey :: bytes
  tx_session_key :: bytes

definition encrypt_args :: "Encryptor \<Rightarrow> WBDataHeader \<Rightarrow> bytes \<Rightarrow> aead_args" where
  "encrypt_args e wblockHdr payload =
     \<lparr> a_msg = payload,
       a_ad = take sizeof_WBDataHeader (header_bytes wblockHdr),
       a_npub = npub_of_header wblockHdr,
       a_key = tx_session_key e \<rparr>"

definition makeEncryptedPacketIncludingHeader ::
  "aead_encrypt \<Rightarrow> Encryptor \<Rightarrow> WBDataHeader \<Rightarrow> bytes \<Rightarrow> error + bytes" where
  "makeEncryptedPacketIncludingHeader enc e wblockHdr payload =
     (case vector_resize
             (size_t_add (size_t_add sizeof_WBDataHeader (length payload))
                crypto_aead_chacha20poly1305_ABYTES) of
        Inl err \<Rightarrow> Inl err
      | Inr ret0 \<Rightarrow>
          (let ret1 = write_at ret0 0 (header_bytes wblockHdr);
               cyphertext = enc (encrypt_args e wblockHdr payload);
               ret = write_at ret1 sizeof_WBDataHeader cyphertext
           in if length ret0 \<noteq> sizeof_WBDataHeader + length cyphertext
              then Inl AssertionFailed
              else Inr ret))"

subsection \<open>Decryptor\<close>

record Decryptor =
  rx_secretkey :: bytes
  tx_publickey :: bytes
  session_key :: bytes

text \<open>
  The constructor. \<open>crypto_box_seed_keypair\<close> is a parameter (seed to public and secret
  key); the file system is a parameter mapping a path to the file's content, \<open>None\<close>
  when \<open>fopen\<close> fails. \<open>fread(p, 32, 1, fp) != 1\<close> holds when fewer than 32 bytes are
  left.
\<close>

definition Decryptor_new ::
  "(bytes \<Rightarrow> bytes \<times> bytes) \<Rightarrow> (string \<Rightarrow> bytes option) \<Rightarrow> string option \<Rightarrow> error + Decryptor" where
  "Decryptor_new seed_keypair fs keypair =
     (case keypair of
        None \<Rightarrow>
          (let (pk, sk) = seed_keypair DEFAULT_ENCRYPTION_SEED
           in Inr \<lparr> rx_secretkey = sk, tx_publickey = pk,
                    session_key = replicate crypto_aead_chacha20poly1305_KEYBYTES 0 \<rparr>)
      | Some path \<Rightarrow>
          (case fs path of
             None \<Rightarrow> Inl (RuntimeError ''Unable to open'')
           | Some content \<Rightarrow>
               if length content < crypto_box_SECRETKEYBYTES
               then Inl (RuntimeError ''Unable to read rx secret key'')
               else if length (drop crypto_box_SECRETKEYBYTES content) < crypto_box_PUBLICKEYBYTES
               then Inl (RuntimeError ''Unable to read tx public key'')
               else Inr \<lparr> rx_secretkey = take crypto_box_SECRETKEYBYTES content,
                          tx_publickey =
                            take crypto_box_PUBLICKEYBYTES (drop crypto_box_SECRETKEYBYTES content),
                          session_key = replicate crypto_aead_chacha20poly1305_KEYBYTES 0 \<rparr>))"

text \<open>
  \<open>onNewPacketWfbKey\<close>: the returned flag and the decryptor afterwards. The local
  \<open>new_session_key\<close> is a zeroed 32-byte array into which the library writes the opened
  key.
\<close>

definition onNewPacketWfbKey ::
  "box_open \<Rightarrow> Decryptor \<Rightarrow> WBSessionKeyPacket \<Rightarrow> bool \<times> Decryptor" where
  "onNewPacketWfbKey open_easy d sessionKeyPacket =
     (case open_easy (session_key_data sessionKeyPacket) (session_key_nonce sessionKeyPacket)
             (tx_publickey d) (rx_secretkey d) of
        None \<Rightarrow> (False, d)
      | Some opened \<Rightarrow>
          (let new_session_key =
                 write_at (replicate crypto_aead_chacha20poly1305_KEYBYTES 0) 0 opened
           in if memcmp_differs (session_key d) new_session_key
                   crypto_aead_chacha20poly1305_KEYBYTES
              then (True, d\<lparr>session_key := new_session_key\<rparr>)
              else (False, d)))"

definition decrypt_args :: "Decryptor \<Rightarrow> WBDataHeader \<Rightarrow> bytes \<Rightarrow> aead_args" where
  "decrypt_args d wblockHdr encryptedPayload =
     \<lparr> a_msg = encryptedPayload,
       a_ad = take sizeof_WBDataHeader (header_bytes wblockHdr),
       a_npub = npub_of_header wblockHdr,
       a_key = session_key d \<rparr>"

text \<open>
  \<open>decryptPacket\<close>: \<open>Inr None\<close> is \<open>std::nullopt\<close>, \<open>Inr (Some p)\<close> the decrypted data.
  The vector is sized \<open>encryptedPayloadSize - crypto_aead_chacha20poly1305_ABYTES\<close> in
  \<open>std::size_t\<close> before the cipher is called.
\<close>

definition decryptPacket ::
  "aead_decrypt \<Rightarrow> Decryptor \<Rightarrow> WBDataHeader \<Rightarrow> bytes \<Rightarrow> error + bytes option" where
  "decryptPacket dec d wblockHdr encryptedPayload =
     (case vector_resize
             (size_t_sub (length encryptedPayload) crypto_aead_chacha20poly1305_ABYTES) of
        Inl err \<Rightarrow> Inl err
      | Inr decrypted0 \<Rightarrow>
          (case dec (decrypt_args d wblockHdr encryptedPayload) of
             None \<Rightarrow> Inr None
           | Some plain \<Rightarrow>
               if length decrypted0 \<noteq> length plain then Inl AssertionFailed
               else Inr (Some (write_at decrypted0 0 plain))))"

section \<open>WBTxRx.h: the radio port byte\<close>

text \<open>
  \<open>struct RadioPort { uint8_t encrypted: 1; uint8_t multiplex_index: 7; }\<close>, packed into
  one byte, and \<open>radio_port_to_uint8_t\<close>, which copies that byte out with \<open>memcpy\<close>.
  Which bits a bit-field occupies is fixed by the ABI, not by the source. GCC and Clang
  on the little-endian targets the link runs on (x86 and ARM Linux) allocate bit-fields
  in declaration order starting at the least significant bit; a big-endian ABI starts
  at the most significant bit. The order is a parameter of the model.
\<close>

record RadioPort =
  encrypted :: "1 word"
  multiplex_index :: "7 word"

datatype bitfield_order = LeastSignificantFirst | MostSignificantFirst

definition radio_port_to_uint8_t :: "bitfield_order \<Rightarrow> RadioPort \<Rightarrow> byte" where
  "radio_port_to_uint8_t ord radio_port =
     (case ord of
        LeastSignificantFirst \<Rightarrow>
          ucast (encrypted radio_port) OR push_bit 1 (ucast (multiplex_index radio_port))
      | MostSignificantFirst \<Rightarrow>
          push_bit 7 (ucast (encrypted radio_port)) OR ucast (multiplex_index radio_port))"

text \<open>
  \<open>Options::session_key_packet_interval = std::chrono::seconds(1)\<close>, the default
  interval between two announcements of the session key, in milliseconds. The clock
  readings of the transmitter below are counted in milliseconds as well.
\<close>

definition session_key_packet_interval_default :: int where
  "session_key_packet_interval_default = 1000"

section \<open>WBTransmitter.cpp\<close>

text \<open>
  The session key packet as the transmitter fills it, and what the transmitter hands to
  the injecting pcap handle. \<open>SleepFor\<close> records a \<open>std::this_thread::sleep_for\<close> of the
  given number of milliseconds between injections.
\<close>

record SessionKeyPacket =
  sessionKeyNonce :: bytes
  sessionKeyData :: bytes
  IS_FEC_ENABLED :: bool
  MAX_N_FRAGMENTS_PER_BLOCK :: nat

datatype tx_event =
    InjectSessionKey SessionKeyPacket
  | InjectData WBDataHeader bytes
  | SleepFor nat

datatype fec_k = FecK int | FecVideo string

datatype FEC_VARIABLE_INPUT_TYPE = none | h264 | h265

record TOptions =
  fec_k :: fec_k
  fec_percentage :: nat
  keypair :: "string option"
  enableLogAlive :: bool

text \<open>
  What WBTransmitter.cpp uses and src/ does not hold, as parameters: the constants
  \<open>FEC_MAX_PAYLOAD_SIZE\<close>, \<open>SESSION_KEY_ANNOUNCE_DELTA\<close>, \<open>MAX_N_P_FRAGMENTS_PER_BLOCK\<close>,
  \<open>WBSessionKeyPacket::SIZE_BYTES\<close> and the packet type of a data header; the
  encryptor (state \<open>'c\<close>), the FEC encoder (state \<open>'f\<close>) and the encoder used when FEC is
  disabled (state \<open>'g\<close>). An encoder returns its new state and the fragments it passes
  to \<open>outputDataCallback\<close>, in order, as pairs of nonce and payload.
\<close>

record ('c, 'f, 'g) tx_env =
  FEC_MAX_PAYLOAD_SIZE :: nat
  SESSION_KEY_ANNOUNCE_DELTA :: int
  MAX_N_P_FRAGMENTS_PER_BLOCK :: int
  SESSION_KEY_PACKET_SIZE_BYTES :: nat
  WFB_PACKET_DATA :: byte
  Encryptor_new :: "string option \<Rightarrow> error + 'c"
  makeNewSessionKey :: "'c \<Rightarrow> 'c \<times> bytes \<times> bytes"
  encryptPacket :: "'c \<Rightarrow> 64 word \<Rightarrow> bytes \<Rightarrow> WBDataHeader \<Rightarrow> bytes"
  FECEncoder_new :: "int \<Rightarrow> nat \<Rightarrow> 'f"
  FECEncoder_calculateN :: "int \<Rightarrow> nat \<Rightarrow> nat"
  FECEncoder_encodePacket :: "'f \<Rightarrow> bytes \<Rightarrow> bool \<Rightarrow> 'f \<times> (64 word \<times> bytes) list"
  FECEncoder_resetOnOverflow :: "'f \<Rightarrow> bool \<times> 'f"
  FECDisabledEncoder_new :: "'g"
  FECDisabledEncoder_encodePacket :: "'g \<Rightarrow> bytes \<Rightarrow> 'g \<times> (64 word \<times> bytes) list"
  h264_end_block :: "bytes \<Rightarrow> bool"
  h265_end_block :: "bytes \<Rightarrow> bool"

text \<open>
  The members of the transmitter that the modelled functions read or write, and
  \<open>tx_trace\<close>, the injections and sleeps so far, oldest first. The measured injection
  time, and the error hint counted from it, are wall-clock readings and are left out.
\<close>

record ('c, 'f, 'g) WBTransmitter =
  options :: TOptions
  mEncryptor :: 'c
  IS_FEC_DISABLED :: bool
  IS_FEC_VARIABLE :: bool
  fecVariableInputType :: FEC_VARIABLE_INPUT_TYPE
  mFecEncoder :: "'f option"
  mFecDisabledEncoder :: "'g option"
  sessionKeyPacket :: SessionKeyPacket
  session_key_announce_ts :: int
  mcs_index :: byte
  ieee80211_seq :: "16 word"
  m_curr_seq_nr :: "16 word"
  count_bytes_data_provided :: nat
  count_bytes_data_injected :: nat
  nInputPackets :: nat
  nInjectedPackets :: nat
  nInjectedSessionKeypackets :: nat
  tx_trace :: "tx_event list"

definition convert :: "TOptions \<Rightarrow> error + FEC_VARIABLE_INPUT_TYPE" where
  "convert opts =
     (case fec_k opts of
        FecK k \<Rightarrow> Inr none
      | FecVideo tmp \<Rightarrow>
          if tmp = ''h264'' then Inr h264
          else if tmp = ''h265'' then Inr h265
          else Inl AssertionFailed)"

definition sendPacket ::
  "('c, 'f, 'g) WBTransmitter \<Rightarrow> nat \<Rightarrow> tx_event \<Rightarrow> ('c, 'f, 'g) WBTransmitter" where
  "sendPacket t payloadSize pkt =
     t\<lparr> count_bytes_data_injected := count_bytes_data_injected t + payloadSize,
        ieee80211_seq := ieee80211_seq t + 16,
        nInjectedPackets := nInjectedPackets t + 1,
        tx_trace := tx_trace t @ [pkt] \<rparr>"

definition sendFecPrimaryOrSecondaryFragment ::
  "('c, 'f, 'g) tx_env \<Rightarrow> ('c, 'f, 'g) WBTransmitter \<Rightarrow> 64 word \<times> bytes
     \<Rightarrow> ('c, 'f, 'g) WBTransmitter" where
  "sendFecPrimaryOrSecondaryFragment env t frag =
     (let wbDataHeader = \<lparr> packet_type = WFB_PACKET_DATA env, nonce = fst frag,
                            sequence_number_extra = m_curr_seq_nr t \<rparr>;
          t1 = t\<lparr> m_curr_seq_nr := m_curr_seq_nr t + 1 \<rparr>;
          encryptedData = encryptPacket env (mEncryptor t1) (fst frag) (snd frag) wbDataHeader
      in sendPacket t1 (length encryptedData) (InjectData wbDataHeader encryptedData))"

definition sendSessionKey ::
  "('c, 'f, 'g) tx_env \<Rightarrow> ('c, 'f, 'g) WBTransmitter \<Rightarrow> ('c, 'f, 'g) WBTransmitter" where
  "sendSessionKey env t =
     (let t1 = sendPacket t (SESSION_KEY_PACKET_SIZE_BYTES env)
                 (InjectSessionKey (sessionKeyPacket t))
      in t1\<lparr> nInjectedSessionKeypackets := nInjectedSessionKeypackets t1 + 1 \<rparr>)"

definition sleep_for ::
  "nat \<Rightarrow> ('c, 'f, 'g) WBTransmitter \<Rightarrow> ('c, 'f, 'g) WBTransmitter" where
  "sleep_for ms t = t\<lparr> tx_trace := tx_trace t @ [SleepFor ms] \<rparr>"

text \<open>\<open>for (int i = 0; i < 5; i++) { sendSessionKey(); sleep_for(10 ms); }\<close>, counted down.\<close>

fun startup_announce ::
  "('c, 'f, 'g) tx_env \<Rightarrow> nat \<Rightarrow> ('c, 'f, 'g) WBTransmitter \<Rightarrow> ('c, 'f, 'g) WBTransmitter" where
  "startup_announce env 0 t = t"
| "startup_announce env (Suc n) t = startup_announce env n (sleep_for 10 (sendSessionKey env t))"

definition newSessionKey ::
  "('c, 'f, 'g) tx_env \<Rightarrow> ('c, 'f, 'g) WBTransmitter \<Rightarrow> ('c, 'f, 'g) WBTransmitter" where
  "newSessionKey env t =
     (case makeNewSessionKey env (mEncryptor t) of
        (c, key_nonce, key_data) \<Rightarrow>
          t\<lparr> mEncryptor := c,
             sessionKeyPacket :=
               (sessionKeyPacket t)\<lparr> sessionKeyNonce := key_nonce, sessionKeyData := key_data \<rparr> \<rparr>)"

text \<open>
  The constructor. \<open>members\<close> holds the default member initialisers of the class
  declaration (WBTransmitter.h, not in src/); \<open>now\<close> is the reading of the steady clock
  after the start-up announcements. The log-alive thread only prints.
\<close>

definition WBTransmitter_new ::
  "('c, 'f, 'g) tx_env \<Rightarrow> ('c, 'f, 'g) WBTransmitter \<Rightarrow> TOptions \<Rightarrow> int
     \<Rightarrow> error + ('c, 'f, 'g) WBTransmitter" where
  "WBTransmitter_new env members options1 now =
     (case Encryptor_new env (keypair options1) of
        Inl err \<Rightarrow> Inl err
      | Inr c \<Rightarrow>
     (case convert options1 of
        Inl err \<Rightarrow> Inl err
      | Inr input_type \<Rightarrow>
          (let disabled = (case fec_k options1 of FecK k \<Rightarrow> k = 0 | FecVideo v \<Rightarrow> False);
               variable = (case fec_k options1 of FecK k \<Rightarrow> False | FecVideo v \<Rightarrow> True);
               t0 = members\<lparr> options := options1, mEncryptor := c,
                             IS_FEC_DISABLED := disabled, IS_FEC_VARIABLE := variable,
                             fecVariableInputType := input_type \<rparr>;
               t1 = newSessionKey env t0;
               t2 = (if disabled
                     then t1\<lparr> mFecDisabledEncoder := Some (FECDisabledEncoder_new env) \<rparr>
                     else
                       (let kMax = (case fec_k options1 of
                                      FecK k \<Rightarrow> k
                                    | FecVideo v \<Rightarrow> MAX_N_P_FRAGMENTS_PER_BLOCK env)
                        in t1\<lparr> mFecEncoder :=
                                  Some (FECEncoder_new env kMax (fec_percentage options1)),
                                sessionKeyPacket :=
                                  (sessionKeyPacket t1)\<lparr> MAX_N_FRAGMENTS_PER_BLOCK :=
                                     FECEncoder_calculateN env kMax (fec_percentage options1) \<rparr> \<rparr>));
               t3 = t2\<lparr> sessionKeyPacket :=
                          (sessionKeyPacket t2)\<lparr> IS_FEC_ENABLED := \<not> disabled \<rparr> \<rparr>;
               t4 = startup_announce env 5 t3
           in Inr (t4\<lparr> session_key_announce_ts := now + SESSION_KEY_ANNOUNCE_DELTA env \<rparr>))))"

text \<open>
  \<open>feedPacket(buf, size)\<close> with \<open>size = length buf\<close>; \<open>cur_ts\<close> is the reading of the
  steady clock the call would take. A null encoder pointer is dereferenced nowhere
  after a successful construction; the model leaves the transmitter as it is there.
\<close>

definition feedPacket ::
  "('c, 'f, 'g) tx_env \<Rightarrow> ('c, 'f, 'g) WBTransmitter \<Rightarrow> int \<Rightarrow> bytes
     \<Rightarrow> ('c, 'f, 'g) WBTransmitter" where
  "feedPacket env t cur_ts buf =
     (if length buf \<le> 0 \<or> length buf > FEC_MAX_PAYLOAD_SIZE env then t
      else
        (let t1 = t\<lparr> count_bytes_data_provided := count_bytes_data_provided t + length buf \<rparr>;
             t2 = (if cur_ts \<ge> session_key_announce_ts t1
                   then (sendSessionKey env t1)
                          \<lparr> session_key_announce_ts := cur_ts + SESSION_KEY_ANNOUNCE_DELTA env \<rparr>
                   else t1);
             t3 = (if IS_FEC_DISABLED t2
                   then (case mFecDisabledEncoder t2 of
                           None \<Rightarrow> t2
                         | Some g \<Rightarrow>
                             (case FECDisabledEncoder_encodePacket env g buf of
                                (g', frags) \<Rightarrow>
                                  foldl (sendFecPrimaryOrSecondaryFragment env)
                                    (t2\<lparr> mFecDisabledEncoder := Some g' \<rparr>) frags))
                   else (case mFecEncoder t2 of
                           None \<Rightarrow> t2
                         | Some f \<Rightarrow>
                             (let endBlock =
                                    (if IS_FEC_VARIABLE t2
                                     then (if fecVariableInputType t2 = h264
                                           then h264_end_block env buf
                                           else h265_end_block env buf)
                                     else False)
                              in case FECEncoder_encodePacket env f buf endBlock of
                                   (f', frags) \<Rightarrow>
                                     (let t2a = foldl (sendFecPrimaryOrSecondaryFragment env)
                                                  (t2\<lparr> mFecEncoder := Some f' \<rparr>) frags
                                      in case FECEncoder_resetOnOverflow env f' of
                                           (overflow, f'') \<Rightarrow>
                                             (let t2b = t2a\<lparr> mFecEncoder := Some f'' \<rparr>
                                              in if overflow
                                                 then sendSessionKey env (newSessionKey env t2b)
                                                 else t2b)))))
         in t3\<lparr> nInputPackets := nInputPackets t3 + 1 \<rparr>))"

definition update_mcs_index ::
  "byte \<Rightarrow> ('c, 'f, 'g) WBTransmitter \<Rightarrow> ('c, 'f, 'g) WBTransmitter" where
  "update_mcs_index new_mcs_index t = t\<lparr> mcs_index := new_mcs_index \<rparr>"

text \<open>The session key packets among the events of a trace.\<close>

fun is_session_key_event :: "tx_event \<Rightarrow> bool" where
  "is_session_key_event (InjectSessionKey p) = True"
| "is_session_key_event (InjectData h d) = False"
| "is_session_key_event (SleepFor ms) = False"

definition session_key_events :: "tx_event list \<Rightarrow> tx_event list" where
  "session_key_events evs = filter is_session_key_event evs"

section \<open>gf256_ssse3.h: multiply-add over a region\<close>

subsection \<open>The field\<close>

text \<open>
  Multiplication in GF(2^8) with the primitive polynomial 0x11d, written from the
  spec's words as shift-and-add: \<open>xtime\<close> multiplies by the generator and reduces, and
  \<open>gf_mul a b\<close> adds \<open>a\<close> times each set bit of \<open>b\<close>.
\<close>

definition xtime :: "byte \<Rightarrow> byte" where
  "xtime a = (if bit a 7 then push_bit 1 a XOR 0x1d else push_bit 1 a)"

primrec gf_mul_bits :: "nat \<Rightarrow> byte \<Rightarrow> byte \<Rightarrow> byte" where
  "gf_mul_bits 0 a b = 0"
| "gf_mul_bits (Suc n) a b =
     (if bit b 0 then a else 0) XOR gf_mul_bits n (xtime a) (drop_bit 1 b)"

definition gf_mul :: "byte \<Rightarrow> byte \<Rightarrow> byte" where
  "gf_mul a b = gf_mul_bits 8 a b"

text \<open>
  Modelled from the spec: the tables \<open>MOEPGF256_SHUFFLE_LOW_TABLE\<close> and
  \<open>MOEPGF256_SHUFFLE_HIGH_TABLE\<close> (gf256tables285.h) are missing. The spec describes
  them as the low and high 4-bit product tables per multiplier: row \<open>c\<close> of the low
  table holds \<open>c\<close> times each low nibble, row \<open>c\<close> of the high table \<open>c\<close> times each
  high nibble.
\<close>

definition tl_table :: "byte \<Rightarrow> bytes" where
  "tl_table c = map (\<lambda>i. gf_mul c (of_nat i)) [0..<16]"

definition th_table :: "byte \<Rightarrow> bytes" where
  "th_table c = map (\<lambda>i. gf_mul c (push_bit 4 (of_nat i))) [0..<16]"

subsection \<open>Memory\<close>

text \<open>
  The routines take pointers, and the two regions may lie anywhere, also on top of each
  other. Memory is a map from addresses to bytes; a region is an address and a length.
  Allocation bounds are not tracked: every address can be read and written.
\<close>

type_synonym memory = "nat \<Rightarrow> byte"

definition read_bytes :: "memory \<Rightarrow> nat \<Rightarrow> nat \<Rightarrow> bytes" where
  "read_bytes mem a n = map (\<lambda>i. mem (a + i)) [0..<n]"

definition write_bytes :: "memory \<Rightarrow> nat \<Rightarrow> bytes \<Rightarrow> memory" where
  "write_bytes mem a v = (\<lambda>x. if a \<le> x \<and> x < a + length v then v ! (x - a) else mem x)"

subsection \<open>The SSE intrinsics on 16-byte vectors\<close>

text \<open>
  A \<open>__m128i\<close> is its 16 bytes in memory order; a 64-bit lane is 8 of them,
  little-endian. \<open>_mm_load_si128\<close> and \<open>_mm_store_si128\<close> are the aligned forms: at an
  address that is not a multiple of 16 they fault. The tables are loaded with the
  unaligned \<open>_mm_loadu_si128\<close>, which reads a table row as it is.
\<close>

definition mm_set1_epi8 :: "byte \<Rightarrow> bytes" where
  "mm_set1_epi8 b = replicate 16 b"

definition mm_and_si128 :: "bytes \<Rightarrow> bytes \<Rightarrow> bytes" where
  "mm_and_si128 a b = map2 (AND) a b"

definition mm_xor_si128 :: "bytes \<Rightarrow> bytes \<Rightarrow> bytes" where
  "mm_xor_si128 a b = map2 (XOR) a b"

text \<open>\<open>pshufb\<close>: a byte of the index with bit 7 set selects zero, else its low nibble selects.\<close>

definition mm_shuffle_epi8 :: "bytes \<Rightarrow> bytes \<Rightarrow> bytes" where
  "mm_shuffle_epi8 table idx =
     map (\<lambda>i. if bit i 7 then 0 else table ! unat (i AND 0x0f)) idx"

fun lane_of_bytes :: "bytes \<Rightarrow> 64 word" where
  "lane_of_bytes [] = 0"
| "lane_of_bytes (b # bs) = ucast b OR push_bit 8 (lane_of_bytes bs)"

definition mm_srli_epi64 :: "bytes \<Rightarrow> nat \<Rightarrow> bytes" where
  "mm_srli_epi64 v n =
     le_bytes 8 (drop_bit n (lane_of_bytes (take 8 v)))
     @ le_bytes 8 (drop_bit n (lane_of_bytes (take 8 (drop 8 v))))"

definition mm_loadu_si128 :: "bytes \<Rightarrow> bytes" where
  "mm_loadu_si128 row = take 16 row"

definition mm_load_si128 :: "memory \<Rightarrow> nat \<Rightarrow> error + bytes" where
  "mm_load_si128 mem p =
     (if p mod 16 \<noteq> 0 then Inl AlignmentFault else Inr (read_bytes mem p 16))"

definition mm_store_si128 :: "memory \<Rightarrow> nat \<Rightarrow> bytes \<Rightarrow> error + memory" where
  "mm_store_si128 mem p v =
     (if p mod 16 \<noteq> 0 then Inl AlignmentFault else Inr (write_bytes mem p v))"

subsection \<open>The routines\<close>

text \<open>
  Modelled from the spec: \<open>xorr_sse2\<close> (the GF(2) region routine of the same library) is
  missing. The spec's \<open>dst ^= c \<cdot> src\<close> byte-wise, at \<open>c = 1\<close>: the \<open>length\<close> bytes at
  region2 are XORed into the \<open>length\<close> bytes at region1.
\<close>

definition xorr_sse2 :: "memory \<Rightarrow> nat \<Rightarrow> nat \<Rightarrow> nat \<Rightarrow> error + memory" where
  "xorr_sse2 mem region1 region2 len =
     Inr (write_bytes mem region1
            (map2 (XOR) (read_bytes mem region1 len) (read_bytes mem region2 len)))"

text \<open>
  The loop of \<open>maddrc256_shuffle_ssse3\<close>: both pointers advance by 16 while
  \<open>region1 < end\<close>, and each round loads 16 bytes at region2 and at region1, combines
  them and stores 16 bytes at region1, in memory as the earlier rounds have left it.
\<close>

function maddrc256_loop ::
  "bytes \<Rightarrow> bytes \<Rightarrow> memory \<Rightarrow> nat \<Rightarrow> nat \<Rightarrow> nat \<Rightarrow> error + memory" where
  "maddrc256_loop t1 t2 mem region1 region2 end_ptr =
     (if region1 < end_ptr
      then (case mm_load_si128 mem region2 of
              Inl err \<Rightarrow> Inl err
            | Inr in2 \<Rightarrow>
                (case mm_load_si128 mem region1 of
                   Inl err \<Rightarrow> Inl err
                 | Inr in1 \<Rightarrow>
                     (let m1 = mm_set1_epi8 0x0f;
                          m2 = mm_set1_epi8 0xf0;
                          l = mm_and_si128 in2 m1;
                          l = mm_shuffle_epi8 t1 l;
                          h = mm_and_si128 in2 m2;
                          h = mm_srli_epi64 h 4;
                          h = mm_shuffle_epi8 t2 h;
                          out = mm_xor_si128 h l;
                          out = mm_xor_si128 out in1
                      in case mm_store_si128 mem region1 out of
                           Inl err \<Rightarrow> Inl err
                         | Inr mem' \<Rightarrow>
                             maddrc256_loop t1 t2 mem' (region1 + 16) (region2 + 16) end_ptr)))
      else Inr mem)"
  by pat_completeness auto
termination
  by (relation "measure (\<lambda>(t1, t2, mem, region1, region2, end_ptr). end_ptr - region1)") auto

declare maddrc256_loop.simps [simp del]

definition maddrc256_shuffle_ssse3 ::
  "memory \<Rightarrow> nat \<Rightarrow> nat \<Rightarrow> byte \<Rightarrow> nat \<Rightarrow> error + memory" where
  "maddrc256_shuffle_ssse3 mem region1 region2 constant len =
     (if constant = 0 then Inr mem
      else if constant = 1 then xorr_sse2 mem region1 region2 len
      else maddrc256_loop (mm_loadu_si128 (tl_table constant)) (mm_loadu_si128 (th_table constant))
             mem region1 region2 (region1 + len))"

section \<open>SocketHelper.hpp: the list of forwarders\<close>

record UDPForwarder =
  client_addr :: string
  client_udp_port :: int

text \<open>
  \<open>std::find_if\<close> over the list: the position of the first element satisfying the
  predicate, or the length of the list, which stands for \<open>end()\<close>.
\<close>

fun find_if :: "('a \<Rightarrow> bool) \<Rightarrow> 'a list \<Rightarrow> nat" where
  "find_if p [] = 0"
| "find_if p (x # xs) = (if p x then 0 else Suc (find_if p xs))"

text \<open>
  \<open>std::list::erase(position)\<close> requires a dereferenceable iterator; \<open>end()\<close> is not one,
  and erasing it is undefined behaviour.
\<close>

definition list_erase :: "'a list \<Rightarrow> nat \<Rightarrow> error + 'a list" where
  "list_erase xs pos =
     (if pos < length xs then Inr (take pos xs @ drop (Suc pos) xs)
      else Inl UndefinedBehaviour)"

definition removeForwarder :: "UDPForwarder list \<Rightarrow> string \<Rightarrow> int \<Rightarrow> error + UDPForwarder list" where
  "removeForwarder udpForwarders addr port =
     list_erase udpForwarders
       (find_if (\<lambda>f. client_addr f = addr \<and> client_udp_port f = port) udpForwarders)"

section \<open>Derived notions and sample data\<close>

text \<open>
  Whether a call of \<open>feedPacket\<close> ends with a rekey: FEC is enabled and the encoder,
  after taking the packet, reports an overflow of its nonce.
\<close>

definition rekey_due :: "('c, 'f, 'g) tx_env \<Rightarrow> ('c, 'f, 'g) WBTransmitter \<Rightarrow> bytes \<Rightarrow> bool" where
  "rekey_due env t buf =
     (\<not> IS_FEC_DISABLED t \<and>
      (case mFecEncoder t of
         None \<Rightarrow> False
       | Some f \<Rightarrow>
           (let endBlock =
                  (if IS_FEC_VARIABLE t
                   then (if fecVariableInputType t = h264
                         then h264_end_block env buf
                         else h265_end_block env buf)
                   else False)
            in fst (FECEncoder_resetOnOverflow env
                      (fst (FECEncoder_encodePacket env f buf endBlock))))))"

text \<open>The three facts about a transmitter that the announcement schedule is about.\<close>

definition announced ::
  "('c, 'f, 'g) WBTransmitter \<Rightarrow> int \<times> nat \<times> tx_event list" where
  "announced t = (session_key_announce_ts t, nInjectedSessionKeypackets t,
                  session_key_events (tx_trace t))"

text \<open>
  A stand-in cipher for running the model on concrete packets: the tag is sixteen
  bytes of 42, and decryption accepts exactly the ciphertexts that end with it.
\<close>

definition marker_encrypt :: aead_encrypt where
  "marker_encrypt a = a_msg a @ replicate crypto_aead_chacha20poly1305_ABYTES 42"

definition marker_decrypt :: aead_decrypt where
  "marker_decrypt a =
     (let c = a_msg a; n = length c - crypto_aead_chacha20poly1305_ABYTES
      in if crypto_aead_chacha20poly1305_ABYTES \<le> length c
            \<and> drop n c = replicate crypto_aead_chacha20poly1305_ABYTES 42
         then Some (take n c) else None)"

definition example_header :: WBDataHeader where
  "example_header = \<lparr> packet_type = 1, nonce = 0x0102030405060708, sequence_number_extra = 3 \<rparr>"

definition example_encryptor :: Encryptor where
  "example_encryptor = \<lparr> tx_secretkey = replicate 32 1, rx_publickey = replicate 32 2,
                          tx_session_key = replicate 32 7 \<rparr>"

definition example_decryptor :: Decryptor where
  "example_decryptor = \<lparr> rx_secretkey = replicate 32 3, tx_publickey = replicate 32 4,
                          session_key = replicate 32 7 \<rparr>"

text \<open>
  A transmitter environment for running the model: payloads up to 1457 bytes, an
  announce interval of 1000 clock ticks, encoders that emit each packet as one fragment.
\<close>

definition example_env :: "(unit, nat, unit) tx_env" where
  "example_env =
     \<lparr> FEC_MAX_PAYLOAD_SIZE = 1457,
       SESSION_KEY_ANNOUNCE_DELTA = 1000,
       MAX_N_P_FRAGMENTS_PER_BLOCK = 128,
       SESSION_KEY_PACKET_SIZE_BYTES = 74,
       WFB_PACKET_DATA = 1,
       Encryptor_new = (\<lambda>k. Inr ()),
       makeNewSessionKey = (\<lambda>c. (c, replicate 24 9, replicate 48 5)),
       encryptPacket = (\<lambda>c n p h. p @ replicate 16 0),
       FECEncoder_new = (\<lambda>k p. 0),
       FECEncoder_calculateN = (\<lambda>k p. nat k + (nat k * p + 99) div 100),
       FECEncoder_encodePacket = (\<lambda>f buf e. (Suc f, [(of_nat f, buf)])),
       FECEncoder_resetOnOverflow = (\<lambda>f. (False, f)),
       FECDisabledEncoder_new = (),
       FECDisabledEncoder_encodePacket = (\<lambda>g buf. (g, [(0, buf)])),
       h264_end_block = (\<lambda>b. False),
       h265_end_block = (\<lambda>b. False) \<rparr>"

definition example_options :: TOptions where
  "example_options = \<lparr> fec_k = FecK 0, fec_percentage = 50, keypair = None, enableLogAlive = False \<rparr>"

definition example_members :: "(unit, nat, unit) WBTransmitter" where
  "example_members =
     \<lparr> options = example_options, mEncryptor = (),
       IS_FEC_DISABLED = False, IS_FEC_VARIABLE = False, fecVariableInputType = none,
       mFecEncoder = None, mFecDisabledEncoder = None,
       sessionKeyPacket = \<lparr> sessionKeyNonce = [], sessionKeyData = [],
                            IS_FEC_ENABLED = False, MAX_N_FRAGMENTS_PER_BLOCK = 0 \<rparr>,
       session_key_announce_ts = 0, mcs_index = 3, ieee80211_seq = 0, m_curr_seq_nr = 0,
       count_bytes_data_provided = 0, count_bytes_data_injected = 0,
       nInputPackets = 0, nInjectedPackets = 0, nInjectedSessionKeypackets = 0,
       tx_trace = [] \<rparr>"

definition example_tx :: "(unit, nat, unit) WBTransmitter" where
  "example_tx = example_members\<lparr> IS_FEC_DISABLED := True, mFecDisabledEncoder := Some (),
                                session_key_announce_ts := 1050 \<rparr>"

text \<open>
  Ciphers that show what they are called with. The first appends, as its tag, the
  first 16 bytes of the nonce it is given followed by bytes of 255. The second accepts
  only when its nonce has 12 bytes, the third only when its key is 32 zero bytes; both
  then return the ciphertext without its last 16 bytes.
\<close>

definition nonce_echo_encrypt :: aead_encrypt where
  "nonce_echo_encrypt a =
     a_msg a @ take crypto_aead_chacha20poly1305_ABYTES (a_npub a @ replicate 16 0xff)"

definition twelve_byte_nonce_decrypt :: aead_decrypt where
  "twelve_byte_nonce_decrypt a =
     (if length (a_npub a) = 12
      then Some (take (length (a_msg a) - crypto_aead_chacha20poly1305_ABYTES) (a_msg a))
      else None)"

definition zero_key_decrypt :: aead_decrypt where
  "zero_key_decrypt a =
     (if a_key a = replicate crypto_aead_chacha20poly1305_KEYBYTES 0
      then Some (take (length (a_msg a) - crypto_aead_chacha20poly1305_ABYTES) (a_msg a))
      else None)"

text \<open>
  The transmitter that the constructor returns for the sample environment, members and
  options when the clock reads 50 after the start-up announcements.
\<close>

definition constructed_tx :: "(unit, nat, unit) WBTransmitter" where
  "constructed_tx =
     \<lparr> options = example_options, mEncryptor = (),
       IS_FEC_DISABLED = True, IS_FEC_VARIABLE = False, fecVariableInputType = none,
       mFecEncoder = None, mFecDisabledEncoder = Some (),
       sessionKeyPacket = \<lparr> sessionKeyNonce = replicate 24 9, sessionKeyData = replicate 48 5,
                            IS_FEC_ENABLED = False, MAX_N_FRAGMENTS_PER_BLOCK = 0 \<rparr>,
       session_key_announce_ts = 1050, mcs_index = 3, ieee80211_seq = 80, m_curr_seq_nr = 0,
       count_bytes_data_provided = 0, count_bytes_data_injected = 370,
       nInputPackets = 0, nInjectedPackets = 5, nInjectedSessionKeypackets = 5,
       tx_trace =
         concat (replicate 5
           [InjectSessionKey \<lparr> sessionKeyNonce = replicate 24 9, sessionKeyData = replicate 48 5,
                                IS_FEC_ENABLED = False, MAX_N_FRAGMENTS_PER_BLOCK = 0 \<rparr>,
            SleepFor 10]) \<rparr>"

text \<open>
  Memories for running the region routine: sixteen bytes of 1 followed by bytes of
  0x80, sixteen bytes of 1 followed by zeros, and all zeros.
\<close>

definition example_memory :: memory where
  "example_memory = (\<lambda>x. if x < 16 then 1 else 0x80)"

definition overlap_memory :: memory where
  "overlap_memory = (\<lambda>x. if x < 16 then 1 else 0)"

definition zero_memory :: memory where
  "zero_memory = (\<lambda>x. 0)"

section \<open>Properties of Encryption.hpp\<close>

lemma length_le_bytes: "length (le_bytes n w) = n"
  by (simp add: le_bytes_def)

lemma length_header_bytes: "length (header_bytes h) = 11"
  by (simp add: header_bytes_def length_le_bytes)

lemma npub_of_header_eq: "npub_of_header h = le_bytes 8 (nonce h)"
  by (simp add: npub_of_header_def header_bytes_def offsetof_nonce_def
      crypto_aead_chacha20poly1305_NPUBBYTES_def length_le_bytes)

lemma vector_resize_ok: "n \<le> vector_max_size \<Longrightarrow> vector_resize n = Inr (replicate n 0)"
  by (simp add: vector_resize_def)

lemma size_t_sub_ge:
  assumes "b \<le> a" "a < SIZE_T_MODULUS"
  shows "size_t_sub a b = a - b"
proof -
  have b: "b mod SIZE_T_MODULUS = b" using assms by simp
  have e: "a + SIZE_T_MODULUS - b = (a - b) + SIZE_T_MODULUS" using assms by linarith
  have l: "a - b < SIZE_T_MODULUS" using assms by linarith
  have "size_t_sub a b = ((a - b) + SIZE_T_MODULUS) mod SIZE_T_MODULUS"
    unfolding size_t_sub_def b e ..
  also have "\<dots> = a - b"
    using l by (simp only: mod_add_self2 mod_less)
  finally show ?thesis .
qed

lemma size_t_sub_wrap:
  assumes "a < b" "b < SIZE_T_MODULUS"
  shows "size_t_sub a b = a + SIZE_T_MODULUS - b"
proof -
  have b: "b mod SIZE_T_MODULUS = b" using assms by simp
  have l: "a + SIZE_T_MODULUS - b < SIZE_T_MODULUS" using assms by linarith
  show ?thesis
    unfolding size_t_sub_def b using l by (simp only: mod_less)
qed

lemma encrypt_ok:
  assumes len: "length (enc (encrypt_args e h p)) = length p + 16"
    and sz: "length p + 27 \<le> vector_max_size"
  shows "makeEncryptedPacketIncludingHeader enc e h p
           = Inr (header_bytes h @ enc (encrypt_args e h p))"
proof -
  have lt: "11 + length p + 16 < SIZE_T_MODULUS"
    using sz by (simp add: vector_max_size_def SIZE_T_MODULUS_def)
  have n: "size_t_add (size_t_add sizeof_WBDataHeader (length p)) crypto_aead_chacha20poly1305_ABYTES
             = length p + 27"
    using lt by (simp add: size_t_add_def sizeof_WBDataHeader_def crypto_aead_chacha20poly1305_ABYTES_def)
  have r: "vector_resize (length p + 27) = Inr (replicate (length p + 27) 0)"
    using sz by (intro vector_resize_ok) simp
  have "replicate (length p + 27) (0::byte) = replicate 11 0 @ replicate (length p + 16) 0"
    by (simp flip: replicate_add)
  then have w1: "write_at (replicate (length p + 27) 0) 0 (header_bytes h)
              = header_bytes h @ replicate (length p + 16) 0"
    by (simp add: write_at_def length_header_bytes)
  have w2: "write_at (header_bytes h @ replicate (length p + 16) 0) 11 (enc (encrypt_args e h p))
              = header_bytes h @ enc (encrypt_args e h p)"
    by (simp add: write_at_def length_header_bytes len)
  show ?thesis
    unfolding makeEncryptedPacketIncludingHeader_def n r
    by (simp add: Let_def w1 w2 len sizeof_WBDataHeader_def)
qed

lemma decrypt_sized:
  assumes "16 \<le> length c" "length c - 16 \<le> vector_max_size"
  shows "decryptPacket dec d h c =
     (case dec (decrypt_args d h c) of None \<Rightarrow> Inr None
      | Some plain \<Rightarrow> if length c - 16 \<noteq> length plain then Inl AssertionFailed else Inr (Some plain))"
proof -
  have lt: "length c < SIZE_T_MODULUS"
    using assms by (simp add: vector_max_size_def SIZE_T_MODULUS_def)
  have s: "size_t_sub (length c) crypto_aead_chacha20poly1305_ABYTES = length c - 16"
    using assms(1) lt by (simp add: size_t_sub_ge crypto_aead_chacha20poly1305_ABYTES_def)
  show ?thesis
    unfolding decryptPacket_def s
    using assms(2) by (auto simp: vector_resize_ok write_at_def split: option.splits)
qed

lemma decrypt_short:
  assumes "length c < 16"
  shows "decryptPacket dec d h c = Inl LengthError"
proof -
  have "size_t_sub (length c) crypto_aead_chacha20poly1305_ABYTES = length c + SIZE_T_MODULUS - 16"
    using assms by (simp add: size_t_sub_wrap crypto_aead_chacha20poly1305_ABYTES_def SIZE_T_MODULUS_def)
  moreover have "length c + SIZE_T_MODULUS - 16 > vector_max_size"
    by (simp add: SIZE_T_MODULUS_def vector_max_size_def)
  ultimately show ?thesis
    by (simp add: decryptPacket_def vector_resize_def)
qed

text \<open>
  Claim C1 (AEAD round trip). Let the cipher be correct: encryption appends a 16-byte
  tag, and decrypting a ciphertext under the associated data, nonce and key it was
  made with returns the message. Then for every header \<open>H\<close>, every payload \<open>P\<close> whose
  packet fits a vector, and equal session keys on both sides,
  \<open>makeEncryptedPacketIncludingHeader\<close> returns the 11 header bytes followed by a
  ciphertext \<open>C\<close>, and \<open>decryptPacket\<close> on \<open>H\<close> and \<open>C\<close> returns \<open>P\<close>.
\<close>

theorem aead_round_trip:
  assumes len: "\<And>a. length (enc a) = length (a_msg a) + crypto_aead_chacha20poly1305_ABYTES"
    and inv: "\<And>a. dec (a\<lparr>a_msg := enc a\<rparr>) = Some (a_msg a)"
    and key: "session_key d = tx_session_key e"
    and sz: "length P + 27 \<le> vector_max_size"
  shows "\<exists>C. makeEncryptedPacketIncludingHeader enc e H P = Inr (header_bytes H @ C)
             \<and> decryptPacket dec d H C = Inr (Some P)"
proof -
  let ?a = "encrypt_args e H P"
  let ?C = "enc ?a"
  have lc: "length ?C = length P + 16"
    using len [of ?a] by (simp add: encrypt_args_def crypto_aead_chacha20poly1305_ABYTES_def)
  have mk: "makeEncryptedPacketIncludingHeader enc e H P = Inr (header_bytes H @ ?C)"
    using lc sz by (rule encrypt_ok)
  have args: "decrypt_args d H ?C = ?a\<lparr>a_msg := ?C\<rparr>"
    by (simp add: decrypt_args_def encrypt_args_def key)
  have d: "dec (decrypt_args d H ?C) = Some P"
    unfolding args using inv [of ?a] by (simp add: encrypt_args_def)
  have "16 \<le> length ?C" "length ?C - 16 \<le> vector_max_size"
    using lc sz by simp_all
  then have "decryptPacket dec d H ?C = Inr (Some P)"
    by (simp add: decrypt_sized d lc)
  with mk show ?thesis by blast
qed

lemma marker_len: "length (marker_encrypt a) = length (a_msg a) + crypto_aead_chacha20poly1305_ABYTES"
  by (simp add: marker_encrypt_def)

lemma marker_inv: "marker_decrypt (a\<lparr>a_msg := marker_encrypt a\<rparr>) = Some (a_msg a)"
  by (simp add: marker_decrypt_def marker_encrypt_def Let_def)

text \<open>Claim C1 at the header of the sample data, the payload 1, 2, 3 and the stand-in cipher.\<close>

theorem aead_round_trip_witness:
  "\<exists>C. makeEncryptedPacketIncludingHeader marker_encrypt example_encryptor example_header [1, 2, 3]
           = Inr (header_bytes example_header @ C)
       \<and> decryptPacket marker_decrypt example_decryptor example_header C = Inr (Some [1, 2, 3])"
proof -
  have k: "session_key example_decryptor = tx_session_key example_encryptor"
    by (simp add: example_decryptor_def example_encryptor_def)
  have s: "length [1, 2, 3 :: byte] + 27 \<le> vector_max_size"
    by (simp add: vector_max_size_def)
  show ?thesis
    by (rule aead_round_trip [of marker_encrypt marker_decrypt, OF marker_len marker_inv k s])
qed

lemma onNewPacketWfbKey_opened:
  assumes opened: "open_easy (session_key_data pkt) (session_key_nonce pkt)
                     (tx_publickey d) (rx_secretkey d) = Some k"
    and lk: "length k = crypto_aead_chacha20poly1305_KEYBYTES"
    and ls: "length (session_key d) = crypto_aead_chacha20poly1305_KEYBYTES"
  shows "k = session_key d \<Longrightarrow> onNewPacketWfbKey open_easy d pkt = (False, d)"
    and "k \<noteq> session_key d \<Longrightarrow> onNewPacketWfbKey open_easy d pkt = (True, d\<lparr>session_key := k\<rparr>)"
proof -
  have w: "write_at (replicate crypto_aead_chacha20poly1305_KEYBYTES 0) 0 k = k"
    using lk by (simp add: write_at_def)
  have m: "memcmp_differs (session_key d) k crypto_aead_chacha20poly1305_KEYBYTES
             \<longleftrightarrow> session_key d \<noteq> k"
    using lk ls by (simp add: memcmp_differs_def)
  have eq: "onNewPacketWfbKey open_easy d pkt
              = (if session_key d \<noteq> k then (True, d\<lparr>session_key := k\<rparr>) else (False, d))"
    by (simp add: onNewPacketWfbKey_def opened w m Let_def)
  show "k = session_key d \<Longrightarrow> onNewPacketWfbKey open_easy d pkt = (False, d)"
    unfolding eq by simp
  show "k \<noteq> session_key d \<Longrightarrow> onNewPacketWfbKey open_easy d pkt = (True, d\<lparr>session_key := k\<rparr>)"
    unfolding eq by auto
qed

lemma onNewPacketWfbKey_open_failed:
  "open_easy (session_key_data pkt) (session_key_nonce pkt) (tx_publickey d) (rx_secretkey d) = None
   \<Longrightarrow> onNewPacketWfbKey open_easy d pkt = (False, d)"
  by (simp add: onNewPacketWfbKey_def)

text \<open>
  Claim C2 (session key idempotence). When the sealed key of a session key packet
  opens to a 32-byte key \<open>k\<close>, \<open>onNewPacketWfbKey\<close> returns false and leaves the
  decryptor as it is if \<open>k\<close> equals the installed key byte for byte, and returns true
  and installs \<open>k\<close> otherwise.
\<close>

theorem session_key_idempotence:
  assumes opened: "open_easy (session_key_data pkt) (session_key_nonce pkt)
                     (tx_publickey d) (rx_secretkey d) = Some k"
    and lk: "length k = crypto_aead_chacha20poly1305_KEYBYTES"
    and ls: "length (session_key d) = crypto_aead_chacha20poly1305_KEYBYTES"
  shows "onNewPacketWfbKey open_easy d pkt
           = (if k = session_key d then (False, d) else (True, d\<lparr>session_key := k\<rparr>))"
  using onNewPacketWfbKey_opened [of open_easy pkt d k, OF opened lk ls] by simp

text \<open>Claim C2 at an announcement of the installed key and at one of a different key.\<close>

theorem session_key_idempotence_witness:
  "onNewPacketWfbKey (\<lambda>c n pk sk. Some (replicate 32 7)) example_decryptor
      \<lparr> session_key_nonce = replicate 24 9, session_key_data = replicate 48 5 \<rparr>
     = (False, example_decryptor)
   \<and> onNewPacketWfbKey (\<lambda>c n pk sk. Some (replicate 32 8)) example_decryptor
      \<lparr> session_key_nonce = replicate 24 9, session_key_data = replicate 48 5 \<rparr>
     = (True, example_decryptor\<lparr>session_key := replicate 32 8\<rparr>)"
  using session_key_idempotence [of "\<lambda>c n pk sk. Some (replicate 32 7)"
          "\<lparr> session_key_nonce = replicate 24 9, session_key_data = replicate 48 5 \<rparr>"
          example_decryptor "replicate 32 7"]
        session_key_idempotence [of "\<lambda>c n pk sk. Some (replicate 32 8)"
          "\<lparr> session_key_nonce = replicate 24 9, session_key_data = replicate 48 5 \<rparr>"
          example_decryptor "replicate 32 8"]
  by (simp add: example_decryptor_def crypto_aead_chacha20poly1305_KEYBYTES_def)

text \<open>
  Claim C3 (authentication failure is the empty option). A candidate ciphertext
  shorter than the 16-byte tag cannot verify, yet \<open>decryptPacket\<close> does not return the
  empty option for it: \<open>encryptedPayloadSize - 16\<close> wraps around in \<open>std::size_t\<close>, and
  \<open>resize\<close> throws \<open>std::length_error\<close> before the cipher is called. Shown at the empty
  payload and at one of 15 bytes, for every cipher, decryptor and header.
\<close>

theorem decryptPacket_short_input_throws:
  "decryptPacket dec d hdr [] = Inl LengthError
   \<and> decryptPacket dec d hdr (replicate 15 255) = Inl LengthError"
  by (simp add: decrypt_short)

text \<open>
  From 16 bytes on, \<open>decryptPacket\<close> returns the empty option when the cipher rejects,
  and data only when the cipher accepts.
\<close>

lemma decryptPacket_auth_failure:
  assumes "16 \<le> length c" "length c - 16 \<le> vector_max_size"
  shows "dec (decrypt_args d hdr c) = None \<Longrightarrow> decryptPacket dec d hdr c = Inr None"
    and "decryptPacket dec d hdr c = Inr (Some p) \<Longrightarrow> dec (decrypt_args d hdr c) = Some p"
  using assms by (auto simp: decrypt_sized split: option.splits if_splits)

lemma encrypt_args_eq:
  "encrypt_args e h p
     = \<lparr> a_msg = p, a_ad = header_bytes h, a_npub = le_bytes 8 (nonce h),
         a_key = tx_session_key e \<rparr>"
  by (simp add: encrypt_args_def npub_of_header_eq sizeof_WBDataHeader_def length_header_bytes)

lemma decrypt_args_eq:
  "decrypt_args d h c
     = \<lparr> a_msg = c, a_ad = header_bytes h, a_npub = le_bytes 8 (nonce h),
         a_key = session_key d \<rparr>"
  by (simp add: decrypt_args_def npub_of_header_eq sizeof_WBDataHeader_def length_header_bytes)

lemma encrypt_sized:
  assumes sz: "length p + 27 \<le> vector_max_size"
  shows "makeEncryptedPacketIncludingHeader enc e h p
           = (if length (enc (encrypt_args e h p)) \<noteq> length p + 16 then Inl AssertionFailed
              else Inr (header_bytes h @ enc (encrypt_args e h p)))"
proof (cases "length (enc (encrypt_args e h p)) = length p + 16")
  case True
  then show ?thesis using encrypt_ok [of enc e h p, OF True sz] by simp
next
  case False
  have lt: "11 + length p + 16 < SIZE_T_MODULUS"
    using sz by (simp add: vector_max_size_def SIZE_T_MODULUS_def)
  have n: "size_t_add (size_t_add sizeof_WBDataHeader (length p)) crypto_aead_chacha20poly1305_ABYTES
             = length p + 27"
    using lt by (simp add: size_t_add_def sizeof_WBDataHeader_def crypto_aead_chacha20poly1305_ABYTES_def)
  have r: "vector_resize (length p + 27) = Inr (replicate (length p + 27) 0)"
    using sz by (intro vector_resize_ok) simp
  show ?thesis
    unfolding makeEncryptedPacketIncludingHeader_def n r
    using False by (simp add: Let_def sizeof_WBDataHeader_def)
qed

lemma example_nonce_bytes: "le_bytes 8 (nonce example_header) = [8, 7, 6, 5, 4, 3, 2, 1]"
  unfolding example_header_def by code_simp

text \<open>
  Claim C4 (nonce derivation), as stated, fails. Run with the cipher that appends the
  nonce it is given, \<open>makeEncryptedPacketIncludingHeader\<close> returns the header, then the 8
  bytes of the header nonce, then filler: the cipher was handed 8 bytes, not the header
  nonce with four zero bytes before or after it. Run with the cipher that accepts only
  a 12-byte nonce, \<open>decryptPacket\<close> returns the empty option. Shown at the header of the
  sample data.
\<close>

theorem aead_nonce_not_12_bytes:
  "makeEncryptedPacketIncludingHeader nonce_echo_encrypt example_encryptor example_header []
     = Inr (header_bytes example_header @ [8, 7, 6, 5, 4, 3, 2, 1] @ replicate 8 0xff)
   \<and> makeEncryptedPacketIncludingHeader nonce_echo_encrypt example_encryptor example_header []
       \<noteq> Inr (header_bytes example_header @ (replicate 4 0 @ [8, 7, 6, 5, 4, 3, 2, 1])
              @ replicate 4 0xff)
   \<and> makeEncryptedPacketIncludingHeader nonce_echo_encrypt example_encryptor example_header []
       \<noteq> Inr (header_bytes example_header @ ([8, 7, 6, 5, 4, 3, 2, 1] @ replicate 4 0)
              @ replicate 4 0xff)
   \<and> decryptPacket twelve_byte_nonce_decrypt example_decryptor example_header (replicate 16 0)
       = Inr None"
proof -
  have s: "length ([] :: bytes) + 27 \<le> vector_max_size"
    by (simp add: vector_max_size_def)
  have e: "makeEncryptedPacketIncludingHeader nonce_echo_encrypt example_encryptor example_header []
     = Inr (header_bytes example_header @ [8, 7, 6, 5, 4, 3, 2, 1] @ replicate 8 0xff)"
    using encrypt_sized [OF s, of nonce_echo_encrypt example_encryptor example_header]
    by (simp add: encrypt_args_eq nonce_echo_encrypt_def example_nonce_bytes
        crypto_aead_chacha20poly1305_ABYTES_def)
  have r: "replicate 8 (0xff :: byte) = [255, 255, 255, 255, 255, 255, 255, 255]"
          "replicate 4 (0xff :: byte) = [255, 255, 255, 255]"
          "replicate 4 (0 :: byte) = [0, 0, 0, 0]"
    by (simp_all add: numeral_eq_Suc)
  have d: "decryptPacket twelve_byte_nonce_decrypt example_decryptor example_header (replicate 16 0)
       = Inr None"
    using decrypt_sized [of "replicate 16 0" twelve_byte_nonce_decrypt example_decryptor example_header]
    by (simp add: decrypt_args_eq twelve_byte_nonce_decrypt_def length_le_bytes vector_max_size_def)
  show ?thesis
    unfolding e using d by (simp add: r)
qed

text \<open>
  Claim C4, amended. \<open>makeEncryptedPacketIncludingHeader\<close> and \<open>decryptPacket\<close> call the
  cipher with the same public nonce: the 8 bytes of the header's nonce field as they
  lie in memory (little-endian, at offset 1 of the header), with no padding. Their
  results are those of the cipher called with the header as associated data, that
  nonce and the session key.
\<close>

theorem aead_nonce_is_header_nonce:
  assumes "length payload + 27 \<le> vector_max_size"
    and "16 \<le> length encryptedPayload"
    and "length encryptedPayload - 16 \<le> vector_max_size"
  shows "makeEncryptedPacketIncludingHeader enc e hdr payload
           = (if length (enc \<lparr> a_msg = payload, a_ad = header_bytes hdr,
                                a_npub = le_bytes 8 (nonce hdr), a_key = tx_session_key e \<rparr>)
                   \<noteq> length payload + 16
              then Inl AssertionFailed
              else Inr (header_bytes hdr
                        @ enc \<lparr> a_msg = payload, a_ad = header_bytes hdr,
                                 a_npub = le_bytes 8 (nonce hdr), a_key = tx_session_key e \<rparr>))
         \<and> decryptPacket dec d hdr encryptedPayload
             = (case dec \<lparr> a_msg = encryptedPayload, a_ad = header_bytes hdr,
                            a_npub = le_bytes 8 (nonce hdr), a_key = session_key d \<rparr> of
                  None \<Rightarrow> Inr None
                | Some plain \<Rightarrow>
                    if length encryptedPayload - 16 \<noteq> length plain then Inl AssertionFailed
                    else Inr (Some plain))
         \<and> length (le_bytes 8 (nonce hdr)) = 8
         \<and> le_bytes 8 (nonce hdr) = take 8 (drop 1 (header_bytes hdr))"
  using encrypt_sized [OF assms(1), of enc e hdr] decrypt_sized [OF assms(2,3), of dec d hdr]
  by (simp add: encrypt_args_eq decrypt_args_eq length_le_bytes header_bytes_def)

text \<open>
  Claim C4, amended, at the payload 1, 2, 3: the nonce-appending cipher shows the 8
  nonce bytes in the packet, and the stand-in cipher's ciphertext decrypts.
\<close>

theorem aead_nonce_is_header_nonce_witness:
  "makeEncryptedPacketIncludingHeader nonce_echo_encrypt example_encryptor example_header [1, 2, 3]
     = Inr (header_bytes example_header @ [1, 2, 3]
            @ le_bytes 8 (nonce example_header) @ replicate 8 0xff)
   \<and> decryptPacket marker_decrypt example_decryptor example_header ([1, 2, 3] @ replicate 16 42)
       = Inr (Some [1, 2, 3])"
proof -
  have h: "length [1, 2, 3 :: byte] + 27 \<le> vector_max_size"
         "16 \<le> length ([1, 2, 3 :: byte] @ replicate 16 42)"
         "length ([1, 2, 3 :: byte] @ replicate 16 42) - 16 \<le> vector_max_size"
    by (simp_all add: vector_max_size_def)
  show ?thesis
    using aead_nonce_is_header_nonce [OF h, of nonce_echo_encrypt example_encryptor example_header
            marker_decrypt example_decryptor]
    by (simp add: nonce_echo_encrypt_def marker_decrypt_def length_le_bytes
        crypto_aead_chacha20poly1305_ABYTES_def Let_def)
qed

text \<open>
  Claim C9 (the initial session key is zero). A decryptor that the constructor
  returns has 32 zero bytes as its session key; \<open>decryptPacket\<close> on it returns what the
  cipher returns when called with the all-zero key (the header as associated data, the
  header nonce as nonce); and a first announcement that opens to a 32-byte key other
  than zero makes \<open>onNewPacketWfbKey\<close> return true and install it.
\<close>

theorem fresh_decryptor_zero_key:
  assumes new: "Decryptor_new seed_keypair fs key_path = Inr d"
    and opened: "open_easy (session_key_data pkt) (session_key_nonce pkt)
                     (tx_publickey d) (rx_secretkey d) = Some k"
    and lk: "length k = crypto_aead_chacha20poly1305_KEYBYTES"
    and nz: "k \<noteq> replicate crypto_aead_chacha20poly1305_KEYBYTES 0"
    and c16: "16 \<le> length c"
    and cmax: "length c - 16 \<le> vector_max_size"
  shows "session_key d = replicate 32 0
         \<and> decryptPacket dec d hdr c
             = (case dec \<lparr> a_msg = c, a_ad = header_bytes hdr,
                            a_npub = le_bytes 8 (nonce hdr), a_key = replicate 32 0 \<rparr> of
                  None \<Rightarrow> Inr None
                | Some plain \<Rightarrow>
                    if length c - 16 \<noteq> length plain then Inl AssertionFailed
                    else Inr (Some plain))
         \<and> onNewPacketWfbKey open_easy d pkt = (True, d\<lparr>session_key := k\<rparr>)"
proof -
  have z: "session_key d = replicate crypto_aead_chacha20poly1305_KEYBYTES 0"
    using new
    by (auto simp: Decryptor_new_def Let_def split: option.splits if_splits prod.splits)
  then have ls: "length (session_key d) = crypto_aead_chacha20poly1305_KEYBYTES"
    by simp
  have "onNewPacketWfbKey open_easy d pkt = (True, d\<lparr>session_key := k\<rparr>)"
    using onNewPacketWfbKey_opened(2) [of open_easy pkt d k, OF opened lk ls] nz z by simp
  then show ?thesis
    using z decrypt_sized [OF c16 cmax, of dec d hdr]
    by (simp add: decrypt_args_eq crypto_aead_chacha20poly1305_KEYBYTES_def)
qed

text \<open>
  Claim C9 at the decryptor constructed from the default seed: the cipher that accepts
  only the all-zero key decrypts for it.
\<close>

theorem fresh_decryptor_zero_key_witness:
  "Decryptor_new (\<lambda>seed. (replicate 32 1, replicate 32 2)) (\<lambda>path. None) None
     = Inr \<lparr> rx_secretkey = replicate 32 2, tx_publickey = replicate 32 1,
             session_key = replicate 32 0 \<rparr>
   \<and> decryptPacket zero_key_decrypt
        \<lparr> rx_secretkey = replicate 32 2, tx_publickey = replicate 32 1,
          session_key = replicate 32 0 \<rparr> example_header ([1, 2, 3] @ replicate 16 0)
       = Inr (Some [1, 2, 3])
   \<and> onNewPacketWfbKey (\<lambda>c n pk sk. Some (replicate 32 8))
        \<lparr> rx_secretkey = replicate 32 2, tx_publickey = replicate 32 1,
          session_key = replicate 32 0 \<rparr>
        \<lparr> session_key_nonce = replicate 24 9, session_key_data = replicate 48 5 \<rparr>
       = (True, \<lparr> rx_secretkey = replicate 32 2, tx_publickey = replicate 32 1,
                  session_key = replicate 32 8 \<rparr>)"
proof -
  let ?d = "\<lparr> rx_secretkey = replicate 32 2, tx_publickey = replicate 32 1,
              session_key = replicate 32 0 \<rparr>"
  have n: "Decryptor_new (\<lambda>seed. (replicate 32 1, replicate 32 2)) (\<lambda>path. None) None = Inr ?d"
    by (simp add: Decryptor_new_def crypto_aead_chacha20poly1305_KEYBYTES_def)
  have nz: "replicate 32 (8 :: byte) \<noteq> replicate crypto_aead_chacha20poly1305_KEYBYTES 0"
    by (simp add: crypto_aead_chacha20poly1305_KEYBYTES_def)
  have c: "16 \<le> length ([1, 2, 3 :: byte] @ replicate 16 0)"
          "length ([1, 2, 3 :: byte] @ replicate 16 0) - 16 \<le> vector_max_size"
    by (simp_all add: vector_max_size_def)
  show ?thesis
    using fresh_decryptor_zero_key [of "\<lambda>seed. (replicate 32 1, replicate 32 2)" "\<lambda>path. None"
            None ?d "\<lambda>c n pk sk. Some (replicate 32 8)"
            "\<lparr> session_key_nonce = replicate 24 9, session_key_data = replicate 48 5 \<rparr>"
            "replicate 32 8" "[1, 2, 3] @ replicate 16 0" zero_key_decrypt example_header,
            OF n _ _ nz c] n
    by (simp add: crypto_aead_chacha20poly1305_KEYBYTES_def zero_key_decrypt_def
        crypto_aead_chacha20poly1305_ABYTES_def)
qed

section \<open>Properties of the radio port byte and of the forwarder list\<close>

lemma bit_1word: "bit (e :: 1 word) k \<longleftrightarrow> k = 0 \<and> bit e 0"
  using bit_imp_le_length [of e k] by (cases "k = 0") auto

lemma bit_7word: "bit (s :: 7 word) k \<Longrightarrow> k < 7"
  using bit_imp_le_length [of s k] by simp

text \<open>
  Claim C5 (radio port byte), amended. With bit-fields allocated from the least
  significant bit, as on the little-endian targets, bit 0 of the byte is the encrypted
  flag and bits 1 to 7 are the stream index: the byte is \<open>e | (s << 1)\<close>. The layout
  with the flag in bit 7 and the index in bits 0 to 6, \<open>(e << 7) | s\<close>, is the one of an
  ABI that allocates from the most significant bit.
\<close>

theorem radio_port_byte_layout:
  "(bit (radio_port_to_uint8_t LeastSignificantFirst rp) n
      \<longleftrightarrow> (if n = 0 then bit (encrypted rp) 0 else bit (multiplex_index rp) (n - 1)))
   \<and> (bit (radio_port_to_uint8_t MostSignificantFirst rp) n
      \<longleftrightarrow> (if n = 7 then bit (encrypted rp) 0 else bit (multiplex_index rp) n))"
proof -
  have ra: "radio_port_to_uint8_t LeastSignificantFirst rp
              = ucast (encrypted rp) OR push_bit 1 (ucast (multiplex_index rp))"
    and rb: "radio_port_to_uint8_t MostSignificantFirst rp
              = push_bit 7 (ucast (encrypted rp)) OR ucast (multiplex_index rp)"
    by (simp_all add: radio_port_to_uint8_t_def)
  have a: "bit (radio_port_to_uint8_t LeastSignificantFirst rp) n
      \<longleftrightarrow> (if n = 0 then bit (encrypted rp) 0 else bit (multiplex_index rp) (n - 1))"
    unfolding ra bit_or_iff bit_push_bit_iff bit_ucast_iff
    using bit_7word [of "multiplex_index rp" "n - 1"] bit_1word [of "encrypted rp" n]
    by (cases "n = 0") auto
  have b: "bit (radio_port_to_uint8_t MostSignificantFirst rp) n
      \<longleftrightarrow> (if n = 7 then bit (encrypted rp) 0 else bit (multiplex_index rp) n)"
    unfolding rb bit_or_iff bit_push_bit_iff bit_ucast_iff
    using bit_7word [of "multiplex_index rp" n] bit_1word [of "encrypted rp" "n - 7"]
    by (cases "n = 7") auto
  from a b show ?thesis ..
qed

text \<open>
  Claim C5, as stated, fails on the little-endian layout: for the encrypted flag 1 and
  the stream index 5 the byte is 11, not \<open>(1 << 7) | 5 = 133\<close>.
\<close>

theorem radio_port_encrypted_not_in_bit7:
  "radio_port_to_uint8_t LeastSignificantFirst \<lparr> encrypted = 1, multiplex_index = 5 \<rparr> = 11
   \<and> (push_bit 7 (ucast (1 :: 1 word)) OR ucast (5 :: 7 word) :: byte) = 133
   \<and> radio_port_to_uint8_t LeastSignificantFirst \<lparr> encrypted = 1, multiplex_index = 5 \<rparr>
       \<noteq> push_bit 7 (ucast (1 :: 1 word)) OR ucast (5 :: 7 word)"
  by (simp add: radio_port_to_uint8_t_def)

lemma find_if_absent: "\<forall>x \<in> set xs. \<not> p x \<Longrightarrow> find_if p xs = length xs"
  by (induction xs) simp_all

lemma removeForwarder_absent:
  "\<forall>f \<in> set udpForwarders. \<not> (client_addr f = addr \<and> client_udp_port f = port)
   \<Longrightarrow> removeForwarder udpForwarders addr port = Inl UndefinedBehaviour"
  by (simp add: removeForwarder_def list_erase_def find_if_absent)

lemma removeForwarder_present:
  "find_if (\<lambda>f. client_addr f = addr \<and> client_udp_port f = port) udpForwarders = i
   \<Longrightarrow> i < length udpForwarders
   \<Longrightarrow> removeForwarder udpForwarders addr port
        = Inr (take i udpForwarders @ drop (Suc i) udpForwarders)"
  by (simp add: removeForwarder_def list_erase_def)

text \<open>
  Claim C10 (removing an absent forwarder does nothing). When no forwarder matches,
  \<open>std::find_if\<close> returns \<open>end()\<close> and \<open>removeForwarder\<close> erases that position, which is
  undefined behaviour and not a no-op. Shown at the empty list and at a list holding one
  other forwarder.
\<close>

theorem removeForwarder_absent_erases_end:
  "removeForwarder [] ''127.0.0.1'' 5600 = Inl UndefinedBehaviour
   \<and> removeForwarder [\<lparr> client_addr = ''192.168.0.2'', client_udp_port = 5600 \<rparr>]
        ''127.0.0.1'' 5600 = Inl UndefinedBehaviour"
  by (simp add: removeForwarder_def list_erase_def)


section \<open>Properties of WBTransmitter.cpp\<close>

lemma sendSessionKey_fields:
  "tx_trace (sendSessionKey env t) = tx_trace t @ [InjectSessionKey (sessionKeyPacket t)]"
  "nInjectedSessionKeypackets (sendSessionKey env t) = nInjectedSessionKeypackets t + 1"
  "session_key_announce_ts (sendSessionKey env t) = session_key_announce_ts t"
  "sessionKeyPacket (sendSessionKey env t) = sessionKeyPacket t"
  "IS_FEC_DISABLED (sendSessionKey env t) = IS_FEC_DISABLED t"
  "IS_FEC_VARIABLE (sendSessionKey env t) = IS_FEC_VARIABLE t"
  "fecVariableInputType (sendSessionKey env t) = fecVariableInputType t"
  "mFecEncoder (sendSessionKey env t) = mFecEncoder t"
  "mFecDisabledEncoder (sendSessionKey env t) = mFecDisabledEncoder t"
  by (simp_all add: sendSessionKey_def sendPacket_def Let_def)

lemma newSessionKey_fields:
  "tx_trace (newSessionKey env t) = tx_trace t"
  "nInjectedSessionKeypackets (newSessionKey env t) = nInjectedSessionKeypackets t"
  "session_key_announce_ts (newSessionKey env t) = session_key_announce_ts t"
  by (simp_all add: newSessionKey_def split: prod.splits)

lemma sendFragment_fields:
  "session_key_events (tx_trace (sendFecPrimaryOrSecondaryFragment env t frag))
     = session_key_events (tx_trace t)"
  "nInjectedSessionKeypackets (sendFecPrimaryOrSecondaryFragment env t frag)
     = nInjectedSessionKeypackets t"
  "session_key_announce_ts (sendFecPrimaryOrSecondaryFragment env t frag)
     = session_key_announce_ts t"
  "sessionKeyPacket (sendFecPrimaryOrSecondaryFragment env t frag) = sessionKeyPacket t"
  by (simp_all add: sendFecPrimaryOrSecondaryFragment_def sendPacket_def Let_def
        session_key_events_def)

lemma foldl_sendFragment_fields:
  "session_key_events (tx_trace (foldl (sendFecPrimaryOrSecondaryFragment env) t frags))
     = session_key_events (tx_trace t)
   \<and> nInjectedSessionKeypackets (foldl (sendFecPrimaryOrSecondaryFragment env) t frags)
     = nInjectedSessionKeypackets t
   \<and> session_key_announce_ts (foldl (sendFecPrimaryOrSecondaryFragment env) t frags)
     = session_key_announce_ts t
   \<and> sessionKeyPacket (foldl (sendFecPrimaryOrSecondaryFragment env) t frags)
     = sessionKeyPacket t"
  by (induction frags arbitrary: t) (simp_all add: sendFragment_fields)

lemma startup_announce_fields:
  "tx_trace (startup_announce env n t)
     = tx_trace t @ concat (replicate n [InjectSessionKey (sessionKeyPacket t), SleepFor 10])
   \<and> nInjectedSessionKeypackets (startup_announce env n t) = nInjectedSessionKeypackets t + n
   \<and> sessionKeyPacket (startup_announce env n t) = sessionKeyPacket t"
proof (induction n arbitrary: t)
  case 0
  show ?case by simp
next
  case (Suc n)
  have s: "sessionKeyPacket (sleep_for 10 (sendSessionKey env t)) = sessionKeyPacket t"
       "tx_trace (sleep_for 10 (sendSessionKey env t))
          = tx_trace t @ [InjectSessionKey (sessionKeyPacket t), SleepFor 10]"
       "nInjectedSessionKeypackets (sleep_for 10 (sendSessionKey env t))
          = nInjectedSessionKeypackets t + 1"
    by (simp_all add: sleep_for_def sendSessionKey_fields)
  show ?case
    by (simp add: Suc.IH s)
qed

lemma session_key_events_append:
  "session_key_events (xs @ ys) = session_key_events xs @ session_key_events ys"
  by (simp add: session_key_events_def)

lemma session_key_events_single:
  "session_key_events [InjectSessionKey p] = [InjectSessionKey p]"
  "session_key_events [SleepFor ms] = []"
  "session_key_events [InjectData h d] = []"
  by (simp_all add: session_key_events_def)

lemma WBTransmitter_new_startup:
  assumes "WBTransmitter_new env members opts now = Inr t"
  shows "tx_trace t
           = tx_trace members @ concat (replicate 5 [InjectSessionKey (sessionKeyPacket t), SleepFor 10])"
    and "nInjectedSessionKeypackets t = nInjectedSessionKeypackets members + 5"
    and "session_key_announce_ts t = now + SESSION_KEY_ANNOUNCE_DELTA env"
  using assms
  by (auto simp: WBTransmitter_new_def Let_def startup_announce_fields newSessionKey_fields
      split: sum.splits if_splits)

lemma feedPacket_rejected:
  "length buf \<le> 0 \<or> length buf > FEC_MAX_PAYLOAD_SIZE env \<Longrightarrow> feedPacket env t cur_ts buf = t"
  by (simp add: feedPacket_def)


lemma announced_foldl:
  "announced (foldl (sendFecPrimaryOrSecondaryFragment env) t frags) = announced t"
  by (simp add: announced_def foldl_sendFragment_fields)

lemma announced_rekey:
  "announced (sendSessionKey env (newSessionKey env t))
     = (session_key_announce_ts t, nInjectedSessionKeypackets t + 1,
        session_key_events (tx_trace t)
          @ [InjectSessionKey (sessionKeyPacket (sendSessionKey env (newSessionKey env t)))])"
  by (simp add: announced_def sendSessionKey_fields newSessionKey_fields
      session_key_events_append session_key_events_single)

lemma announced_upd [simp]:
  "announced (t\<lparr>mFecEncoder := e\<rparr>) = announced t"
  "announced (t\<lparr>mFecDisabledEncoder := g\<rparr>) = announced t"
  "announced (t\<lparr>nInputPackets := n\<rparr>) = announced t"
  "announced (t\<lparr>count_bytes_data_provided := k\<rparr>) = announced t"
  by (simp_all add: announced_def)

lemma feedPacket_announced:
  assumes "0 < length buf" and "length buf \<le> FEC_MAX_PAYLOAD_SIZE env"
  shows "announced (feedPacket env t cur_ts buf)
           = ((if session_key_announce_ts t \<le> cur_ts
               then cur_ts + SESSION_KEY_ANNOUNCE_DELTA env else session_key_announce_ts t),
              nInjectedSessionKeypackets t
                + (if session_key_announce_ts t \<le> cur_ts then 1 else 0)
                + (if rekey_due env t buf then 1 else 0),
              session_key_events (tx_trace t)
                @ (if session_key_announce_ts t \<le> cur_ts
                   then [InjectSessionKey (sessionKeyPacket t)] else [])
                @ (if rekey_due env t buf
                   then [InjectSessionKey (sessionKeyPacket (feedPacket env t cur_ts buf))]
                   else []))"
proof -
  define t1 where "t1 = t\<lparr> count_bytes_data_provided := count_bytes_data_provided t + length buf \<rparr>"
  define t2 where "t2 = (if cur_ts \<ge> session_key_announce_ts t1
                   then (sendSessionKey env t1)
                          \<lparr> session_key_announce_ts := cur_ts + SESSION_KEY_ANNOUNCE_DELTA env \<rparr>
                   else t1)"
  define endBlock where "endBlock = (if IS_FEC_VARIABLE t2
                                     then (if fecVariableInputType t2 = h264
                                           then h264_end_block env buf
                                           else h265_end_block env buf)
                                     else False)"
  define t3 where "t3 = (if IS_FEC_DISABLED t2
                   then (case mFecDisabledEncoder t2 of
                           None \<Rightarrow> t2
                         | Some g \<Rightarrow>
                             (case FECDisabledEncoder_encodePacket env g buf of
                                (g', frags) \<Rightarrow>
                                  foldl (sendFecPrimaryOrSecondaryFragment env)
                                    (t2\<lparr> mFecDisabledEncoder := Some g' \<rparr>) frags))
                   else (case mFecEncoder t2 of
                           None \<Rightarrow> t2
                         | Some f \<Rightarrow>
                             (case FECEncoder_encodePacket env f buf endBlock of
                                   (f', frags) \<Rightarrow>
                                     (let t2a = foldl (sendFecPrimaryOrSecondaryFragment env)
                                                  (t2\<lparr> mFecEncoder := Some f' \<rparr>) frags
                                      in case FECEncoder_resetOnOverflow env f' of
                                           (overflow, f'') \<Rightarrow>
                                             (let t2b = t2a\<lparr> mFecEncoder := Some f'' \<rparr>
                                              in if overflow
                                                 then sendSessionKey env (newSessionKey env t2b)
                                                 else t2b)))))"
  have guard: "\<not> (length buf \<le> 0 \<or> length buf > FEC_MAX_PAYLOAD_SIZE env)"
    using assms by simp
  have fp: "feedPacket env t cur_ts buf = t3\<lparr> nInputPackets := nInputPackets t3 + 1 \<rparr>"
    unfolding feedPacket_def t3_def endBlock_def t2_def t1_def Let_def
    by (simp only: guard if_False)
  have same: "IS_FEC_DISABLED t2 = IS_FEC_DISABLED t" "IS_FEC_VARIABLE t2 = IS_FEC_VARIABLE t"
    "fecVariableInputType t2 = fecVariableInputType t" "mFecEncoder t2 = mFecEncoder t"
    "mFecDisabledEncoder t2 = mFecDisabledEncoder t" "sessionKeyPacket t2 = sessionKeyPacket t"
    by (simp_all add: t2_def t1_def sendSessionKey_fields)
  have a2: "announced t2
              = ((if session_key_announce_ts t \<le> cur_ts
                  then cur_ts + SESSION_KEY_ANNOUNCE_DELTA env else session_key_announce_ts t),
                 nInjectedSessionKeypackets t + (if session_key_announce_ts t \<le> cur_ts then 1 else 0),
                 session_key_events (tx_trace t)
                   @ (if session_key_announce_ts t \<le> cur_ts
                      then [InjectSessionKey (sessionKeyPacket t)] else []))"
    by (simp add: t2_def t1_def announced_def sendSessionKey_fields
        session_key_events_append session_key_events_single)
  have rk: "rekey_due env t buf
              \<longleftrightarrow> (\<not> IS_FEC_DISABLED t2 \<and>
                   (case mFecEncoder t2 of None \<Rightarrow> False
                    | Some f \<Rightarrow> fst (FECEncoder_resetOnOverflow env
                                        (fst (FECEncoder_encodePacket env f buf endBlock)))))"
    unfolding rekey_due_def endBlock_def same Let_def by (rule refl)
  have a3: "announced t3
              = (fst (announced t2),
                 fst (snd (announced t2)) + (if rekey_due env t buf then 1 else 0),
                 snd (snd (announced t2))
                   @ (if rekey_due env t buf then [InjectSessionKey (sessionKeyPacket t3)] else []))"
  proof (cases "IS_FEC_DISABLED t2")
    case True
    then have "\<not> rekey_due env t buf" by (simp add: rk)
    moreover have "announced t3 = announced t2"
      using True by (simp add: t3_def announced_foldl split: option.splits prod.splits)
    ultimately show ?thesis by simp
  next
    case False
    show ?thesis
    proof (cases "mFecEncoder t2")
      case None
      then have "\<not> rekey_due env t buf" by (simp add: rk)
      moreover have "announced t3 = announced t2"
        using False None by (simp add: t3_def)
      ultimately show ?thesis by simp
    next
      case (Some f)
      obtain f' frags where e: "FECEncoder_encodePacket env f buf endBlock = (f', frags)"
        by (cases "FECEncoder_encodePacket env f buf endBlock")
      obtain overflow f'' where r: "FECEncoder_resetOnOverflow env f' = (overflow, f'')"
        by (cases "FECEncoder_resetOnOverflow env f'")
      let ?t2b = "(foldl (sendFecPrimaryOrSecondaryFragment env)
                     (t2\<lparr> mFecEncoder := Some f' \<rparr>) frags)\<lparr> mFecEncoder := Some f'' \<rparr>"
      have t3: "t3 = (if overflow then sendSessionKey env (newSessionKey env ?t2b) else ?t2b)"
        using False Some e r by (simp add: t3_def Let_def)
      have rk': "rekey_due env t buf \<longleftrightarrow> overflow"
        using False Some e r by (simp add: rk)
      have ab: "announced ?t2b = announced t2"
        by (simp add: announced_foldl)
      show ?thesis
      proof (cases overflow)
        case True
        then have "t3 = sendSessionKey env (newSessionKey env ?t2b)" by (simp add: t3)
        then have "announced t3
                     = (session_key_announce_ts ?t2b, nInjectedSessionKeypackets ?t2b + 1,
                        session_key_events (tx_trace ?t2b) @ [InjectSessionKey (sessionKeyPacket t3)])"
          by (simp only: announced_rekey)
        moreover have "announced ?t2b = (session_key_announce_ts ?t2b, nInjectedSessionKeypackets ?t2b,
                        session_key_events (tx_trace ?t2b))"
          by (simp only: announced_def)
        ultimately show ?thesis
          using True rk' ab by (simp add: announced_def)
      next
        case False
        then show ?thesis using rk' ab t3 by simp
      qed
    qed
  qed
  have "sessionKeyPacket (feedPacket env t cur_ts buf) = sessionKeyPacket t3"
    by (simp add: fp)
  then show ?thesis
    by (simp add: fp a3 a2)
qed

text \<open>
  Claim C7 (rejection is atomic). A call of \<open>feedPacket\<close> with size zero or with a
  size above the maximum payload size returns the transmitter unchanged: every counter,
  the next-announce timestamp, the encoders and the trace of injections are as
  before.
\<close>

theorem feedPacket_rejection_is_atomic:
  assumes "length buf \<le> 0 \<or> length buf > FEC_MAX_PAYLOAD_SIZE env"
  shows "feedPacket env t cur_ts buf = t"
  using assms by (simp add: feedPacket_def)

text \<open>Claim C7 at 1458 bytes against a maximum of 1457, and at the empty packet.\<close>

theorem feedPacket_rejection_is_atomic_witness:
  "feedPacket example_env example_tx 5000 (replicate 1458 0) = example_tx
   \<and> feedPacket example_env example_tx 5000 [] = example_tx"
  using feedPacket_rejection_is_atomic [of "replicate 1458 0" example_env example_tx 5000]
        feedPacket_rejection_is_atomic [of "[]" example_env example_tx 5000]
  by (simp add: example_env_def)

lemma five: "(5 :: nat) = Suc (Suc (Suc (Suc (Suc 0))))"
  by simp

lemma concat_replicate_5: "concat (replicate 5 xs) = xs @ xs @ xs @ xs @ xs"
  by (simp add: five)

lemma example_constructed:
  "WBTransmitter_new example_env example_members example_options 50 = Inr constructed_tx"
  unfolding WBTransmitter_new_def five
  by (simp add: example_env_def example_options_def example_members_def convert_def Let_def
      newSessionKey_def sendSessionKey_def sendPacket_def sleep_for_def constructed_tx_def
      concat_replicate_5)

lemma feedPacket_announced_any:
  "announced (feedPacket env t cur_ts buf)
     = ((if 0 < length buf \<and> length buf \<le> FEC_MAX_PAYLOAD_SIZE env
            \<and> session_key_announce_ts t \<le> cur_ts
         then cur_ts + SESSION_KEY_ANNOUNCE_DELTA env else session_key_announce_ts t),
        nInjectedSessionKeypackets t
          + (if 0 < length buf \<and> length buf \<le> FEC_MAX_PAYLOAD_SIZE env
                \<and> session_key_announce_ts t \<le> cur_ts then 1 else 0)
          + (if 0 < length buf \<and> length buf \<le> FEC_MAX_PAYLOAD_SIZE env
                \<and> rekey_due env t buf then 1 else 0),
        session_key_events (tx_trace t)
          @ (if 0 < length buf \<and> length buf \<le> FEC_MAX_PAYLOAD_SIZE env
                \<and> session_key_announce_ts t \<le> cur_ts
             then [InjectSessionKey (sessionKeyPacket t)] else [])
          @ (if 0 < length buf \<and> length buf \<le> FEC_MAX_PAYLOAD_SIZE env
                \<and> rekey_due env t buf
             then [InjectSessionKey (sessionKeyPacket (feedPacket env t cur_ts buf))]
             else []))"
proof (cases "0 < length buf \<and> length buf \<le> FEC_MAX_PAYLOAD_SIZE env")
  case True
  then show ?thesis
    using feedPacket_announced [of buf env t cur_ts] by simp
next
  case False
  then have "feedPacket env t cur_ts buf = t"
    by (intro feedPacket_rejected) auto
  with False show ?thesis
    by (auto simp: announced_def)
qed

lemma constructed_no_rekey: "\<not> rekey_due example_env constructed_tx buf"
  by (simp add: rekey_due_def constructed_tx_def)

text \<open>
  Claim C6 (announcement schedule), as stated, fails for a call with data that the
  size check rejects. On the transmitter as constructed, a packet of 1458 bytes is fed
  when the clock has passed the next-announce timestamp: no session key packet is sent
  and the timestamp stays.
\<close>

theorem oversize_feed_sends_no_announcement:
  "WBTransmitter_new example_env example_members example_options 50 = Inr constructed_tx
   \<and> session_key_announce_ts constructed_tx \<le> 5000
   \<and> tx_trace (feedPacket example_env constructed_tx 5000 (replicate 1458 0))
       = tx_trace constructed_tx
   \<and> session_key_announce_ts (feedPacket example_env constructed_tx 5000 (replicate 1458 0))
       = session_key_announce_ts constructed_tx"
proof -
  have r: "feedPacket example_env constructed_tx 5000 (replicate 1458 0) = constructed_tx"
    by (rule feedPacket_rejected) (simp add: example_env_def)
  have t: "session_key_announce_ts constructed_tx \<le> 5000"
    by (simp add: constructed_tx_def)
  from example_constructed r t show ?thesis by simp
qed

text \<open>
  Claim C6, amended. The constructor injects exactly five session key packets, each
  followed by a sleep of 10 ms, and sets the next-announce timestamp to now plus the
  announce interval (1 s by default). Updating the MCS index injects nothing. A call
  of \<open>feedPacket\<close> injects the periodic announcement exactly when it passes the size
  check and the clock has reached the timestamp, and then sets the timestamp to the
  clock plus the interval; a call that the size check rejects injects nothing and
  leaves the timestamp. The only other session key packet a call can inject is the one
  after a nonce overflow of the FEC encoder.
\<close>

theorem session_key_announcement_schedule:
  assumes ctor: "WBTransmitter_new env members opts now = Inr t0"
  shows "tx_trace t0
           = tx_trace members
             @ concat (replicate 5 [InjectSessionKey (sessionKeyPacket t0), SleepFor 10])
         \<and> session_key_announce_ts t0 = now + SESSION_KEY_ANNOUNCE_DELTA env
         \<and> tx_trace (update_mcs_index m t) = tx_trace t
         \<and> session_key_announce_ts (feedPacket env t cur_ts buf)
             = (if 0 < length buf \<and> length buf \<le> FEC_MAX_PAYLOAD_SIZE env
                   \<and> session_key_announce_ts t \<le> cur_ts
                then cur_ts + SESSION_KEY_ANNOUNCE_DELTA env else session_key_announce_ts t)
         \<and> session_key_events (tx_trace (feedPacket env t cur_ts buf))
             = session_key_events (tx_trace t)
               @ (if 0 < length buf \<and> length buf \<le> FEC_MAX_PAYLOAD_SIZE env
                     \<and> session_key_announce_ts t \<le> cur_ts
                  then [InjectSessionKey (sessionKeyPacket t)] else [])
               @ (if 0 < length buf \<and> length buf \<le> FEC_MAX_PAYLOAD_SIZE env
                     \<and> rekey_due env t buf
                  then [InjectSessionKey (sessionKeyPacket (feedPacket env t cur_ts buf))]
                  else [])
         \<and> session_key_packet_interval_default = 1000"
proof -
  note a = feedPacket_announced_any [of env t cur_ts buf, unfolded announced_def]
  show ?thesis
    using WBTransmitter_new_startup(1,3) [OF ctor] a
    by (simp add: update_mcs_index_def session_key_packet_interval_default_def)
qed

text \<open>
  Claim C6, amended, at the transmitter as constructed: a packet fed at 2000 ms is
  preceded by an announcement, one fed at 1049 ms is not, and one of 1458 bytes fed at
  2000 ms is dropped without an announcement.
\<close>

theorem session_key_announcement_schedule_witness:
  "WBTransmitter_new example_env example_members example_options 50 = Inr constructed_tx
   \<and> tx_trace constructed_tx
       = concat (replicate 5 [InjectSessionKey (sessionKeyPacket constructed_tx), SleepFor 10])
   \<and> session_key_announce_ts constructed_tx = 50 + session_key_packet_interval_default
   \<and> session_key_announce_ts (feedPacket example_env constructed_tx 2000 [1, 2, 3]) = 3000
   \<and> session_key_events (tx_trace (feedPacket example_env constructed_tx 2000 [1, 2, 3]))
       = session_key_events (tx_trace constructed_tx)
         @ [InjectSessionKey (sessionKeyPacket constructed_tx)]
   \<and> session_key_announce_ts (feedPacket example_env constructed_tx 1049 [1, 2, 3]) = 1050
   \<and> session_key_events (tx_trace (feedPacket example_env constructed_tx 1049 [1, 2, 3]))
       = session_key_events (tx_trace constructed_tx)
   \<and> session_key_announce_ts (feedPacket example_env constructed_tx 2000 (replicate 1458 0))
       = 1050
   \<and> session_key_events (tx_trace (feedPacket example_env constructed_tx 2000 (replicate 1458 0)))
       = session_key_events (tx_trace constructed_tx)"
proof -
  note c = example_constructed
  have dl: "SESSION_KEY_ANNOUNCE_DELTA example_env = 1000" "tx_trace example_members = []"
           "FEC_MAX_PAYLOAD_SIZE example_env = 1457"
    by (simp_all add: example_env_def example_members_def)
  have ts: "session_key_announce_ts constructed_tx = 1050"
    by (simp add: constructed_tx_def)
  have ln: "length [1, 2, 3 :: byte] = 3" "length (replicate 1458 (0 :: byte)) = 1458"
    by simp_all
  note nr = constructed_no_rekey
  have a: "tx_trace constructed_tx
             = concat (replicate 5 [InjectSessionKey (sessionKeyPacket constructed_tx), SleepFor 10])"
      and b: "session_key_announce_ts (feedPacket example_env constructed_tx 2000 [1, 2, 3]) = 3000"
      and b': "session_key_events (tx_trace (feedPacket example_env constructed_tx 2000 [1, 2, 3]))
                 = session_key_events (tx_trace constructed_tx)
                   @ [InjectSessionKey (sessionKeyPacket constructed_tx)]"
    using session_key_announcement_schedule [OF c, of 0 constructed_tx 2000 "[1, 2, 3]"]
    by (simp_all only: dl ts ln nr) simp_all
  have d: "session_key_announce_ts (feedPacket example_env constructed_tx 1049 [1, 2, 3]) = 1050"
      and d': "session_key_events (tx_trace (feedPacket example_env constructed_tx 1049 [1, 2, 3]))
                 = session_key_events (tx_trace constructed_tx)"
    using session_key_announcement_schedule [OF c, of 0 constructed_tx 1049 "[1, 2, 3]"]
    by (simp_all only: dl ts ln nr) simp_all
  have e: "session_key_announce_ts (feedPacket example_env constructed_tx 2000 (replicate 1458 0))
             = 1050"
      and e': "session_key_events
                 (tx_trace (feedPacket example_env constructed_tx 2000 (replicate 1458 0)))
                 = session_key_events (tx_trace constructed_tx)"
    using session_key_announcement_schedule [OF c, of 0 constructed_tx 2000 "replicate 1458 0"]
    by (simp_all only: dl ts ln nr) simp_all
  have f: "session_key_announce_ts constructed_tx = 50 + session_key_packet_interval_default"
    by (simp add: ts session_key_packet_interval_default_def)
  from c a f b b' d d' e e' show ?thesis by (intro conjI)
qed

section \<open>Properties of the GF(256) multiply-add\<close>

lemma gf_mul_bits_xor:
  "gf_mul_bits n a (x XOR y) = gf_mul_bits n a x XOR gf_mul_bits n a y"
proof (induction n arbitrary: a x y)
  case 0
  show ?case by simp
next
  case (Suc n)
  have d: "drop_bit 1 (x XOR y) = drop_bit 1 x XOR drop_bit 1 y"
    by (simp add: drop_bit_xor)
  have b: "bit (x XOR y) 0 \<longleftrightarrow> bit x 0 \<noteq> bit y 0"
    by (simp add: bit_xor_iff)
  show ?case
    by (simp add: d b Suc.IH xor.assoc xor.left_commute)
qed

lemma gf_mul_xor: "gf_mul c (x XOR y) = gf_mul c x XOR gf_mul c y"
  by (simp add: gf_mul_def gf_mul_bits_xor)

lemma nibble_split: "(x :: byte) = (x AND 0x0f) XOR (x AND 0xf0)"
proof -
  have "(x AND 0x0f) XOR (x AND 0xf0) = x AND (0x0f XOR 0xf0)"
    by (rule bit.conj_xor_distrib [symmetric])
  also have "(0x0f XOR 0xf0 :: byte) = - 1" by simp
  finally show ?thesis by simp
qed

lemma gf_mul_bits_zero: "gf_mul_bits n 0 b = 0"
  by (induction n arbitrary: b) (simp_all add: xtime_def)

lemma gf_mul_zero: "gf_mul 0 b = 0"
  by (simp add: gf_mul_def gf_mul_bits_zero)

lemma xtime_exp: "k < 7 \<Longrightarrow> xtime (2 ^ k) = 2 ^ Suc k"
  by (simp add: xtime_def bit_exp_iff mult.commute)

lemma gf_mul_bits_power:
  "k + n \<le> 8 \<Longrightarrow> gf_mul_bits n (2 ^ k) b = push_bit k (take_bit n b)"
proof (induction n arbitrary: k b)
  case 0
  show ?case by simp
next
  case (Suc n)
  show ?case
  proof (cases "n = 0")
    case True
    have "(if bit b 0 then 2 ^ k else 0) = push_bit k (take_bit (Suc 0) b)"
      by (rule bit_eqI) (auto simp: bit_simps bit_0)
    with True show ?thesis by simp
  next
    case False
    with Suc.prems have k: "k < 7" and le: "Suc k + n \<le> 8" by simp_all
    have ih: "gf_mul_bits n (2 ^ Suc k) (drop_bit 1 b)
                = push_bit (Suc k) (take_bit n (drop_bit 1 b))"
      using le by (rule Suc.IH)
    have "(if bit b 0 then 2 ^ k else 0) XOR push_bit (Suc k) (take_bit n (drop_bit 1 b))
            = push_bit k (take_bit (Suc n) b)"
    proof (rule bit_eqI)
      fix m
      assume "possible_bit TYPE(byte) m"
      then have m: "m < 8" by simp
      consider "m < k" | "m = k" | "k < m" by linarith
      then show "bit ((if bit b 0 then 2 ^ k else 0) XOR push_bit (Suc k) (take_bit n (drop_bit 1 b))) m
             \<longleftrightarrow> bit (push_bit k (take_bit (Suc n) b)) m"
      proof cases
        case 1
        then show ?thesis by (simp add: bit_simps)
      next
        case 2
        then show ?thesis using m by (simp add: bit_simps del: push_bit_Suc)
      next
        case 3
        then have "m - k = Suc (m - Suc k)" by simp
        with 3 m show ?thesis by (auto simp: bit_simps simp del: push_bit_Suc)
      qed
    qed
    then show ?thesis
      using ih by (simp add: xtime_exp [OF k] del: power_Suc)
  qed
qed

lemma gf_mul_one: "gf_mul 1 b = b"
  using gf_mul_bits_power [of 0 8 b] by (simp add: gf_mul_def take_bit_word_eq_self)

lemma byte_f0: "(0xf0 :: byte) = push_bit 4 (mask 4)"
  by (simp add: mask_eq_exp_minus_1)

lemma byte_0f: "(0x0f :: byte) = mask 4"
  by (simp add: mask_eq_exp_minus_1)

lemma bit_and_f0: "bit ((x :: byte) AND 0xf0) j \<longleftrightarrow> 4 \<le> j \<and> bit x j"
  unfolding byte_f0 by (auto simp: bit_simps dest: bit_imp_le_length)

lemma bit_and_0f: "bit ((x :: byte) AND 0x0f) j \<longleftrightarrow> j < 4 \<and> bit x j"
  unfolding byte_0f by (auto simp: bit_simps)

lemma bit_byte_ge8: "8 \<le> j \<Longrightarrow> \<not> bit (x :: byte) j"
  by (auto dest: bit_imp_le_length)

lemma dm8:
  assumes "\<not> n < (8::nat)"
  shows "n div 8 = Suc ((n - 8) div 8)" and "n mod 8 = (n - 8) mod 8"
proof -
  from assms have n: "n = (n - 8) + 8" by simp
  show "n div 8 = Suc ((n - 8) div 8)"
    by (subst n) (simp only: div_add_self2 zero_neq_numeral not_False_eq_True Suc_eq_plus1)
  show "n mod 8 = (n - 8) mod 8"
    by (subst n) (simp only: mod_add_self2)
qed

lemma bit_lane_of_bytes:
  "bit (lane_of_bytes bs) n \<longleftrightarrow> n < 64 \<and> n div 8 < length bs \<and> bit (bs ! (n div 8)) (n mod 8)"
proof (induction bs arbitrary: n)
  case Nil
  show ?case by simp
next
  case (Cons b bs)
  show ?case
  proof (cases "n < 8")
    case True
    then show ?thesis by (simp add: bit_simps)
  next
    case False
    note dm = dm8 [OF False]
    from False have nb: "\<not> bit b n" by (simp add: bit_byte_ge8)
    have "bit (lane_of_bytes (b # bs)) n \<longleftrightarrow> n < 64 \<and> bit (lane_of_bytes bs) (n - 8)"
      using False nb by (auto simp: bit_or_iff bit_push_bit_iff bit_ucast_iff)
    also have "\<dots> \<longleftrightarrow> n < 64 \<and> (n - 8) div 8 < length bs
                    \<and> bit (bs ! ((n - 8) div 8)) ((n - 8) mod 8)"
      unfolding Cons.IH by auto
    finally show ?thesis
      by (simp add: dm)
  qed
qed

lemma le_bytes_nth: "i < n \<Longrightarrow> le_bytes n w ! i = ucast (drop_bit (8 * i) w)"
  by (simp add: le_bytes_def)

lemma srli_lane:
  assumes len: "length xs = 8"
  shows "le_bytes 8 (drop_bit 4 (lane_of_bytes (map (\<lambda>x. x AND 0xf0) xs))) = map (drop_bit 4) xs"
proof (rule nth_equalityI)
  show "length (le_bytes 8 (drop_bit 4 (lane_of_bytes (map (\<lambda>x. x AND 0xf0) xs))))
          = length (map (drop_bit 4) xs)"
    by (simp add: length_le_bytes len)
next
  fix i
  assume "i < length (le_bytes 8 (drop_bit 4 (lane_of_bytes (map (\<lambda>x. x AND 0xf0) xs))))"
  then have i: "i < 8" by (simp add: length_le_bytes)
  let ?L = "lane_of_bytes (map (\<lambda>x. x AND 0xf0) xs)"
  have "(ucast (drop_bit (8 * i) (drop_bit 4 ?L)) :: byte) = drop_bit 4 (xs ! i)"
  proof (rule bit_eqI)
    fix k
    assume "possible_bit TYPE(byte) k"
    then have k: "k < 8" by simp
    have l: "bit (ucast (drop_bit (8 * i) (drop_bit 4 ?L)) :: byte) k \<longleftrightarrow> bit ?L (8 * i + (4 + k))"
    proof -
      have "bit (ucast (drop_bit (8 * i) (drop_bit 4 ?L)) :: byte) k \<longleftrightarrow> bit ?L (8 * i + 4 + k)"
        using k by (simp add: bit_ucast_iff bit_drop_bit_eq)
      then show ?thesis
        by (simp only: add.assoc)
    qed
    have r: "bit (drop_bit 4 (xs ! i)) k \<longleftrightarrow> bit (xs ! i) (4 + k)"
      by (simp add: bit_drop_bit_eq)
    show "bit (ucast (drop_bit (8 * i) (drop_bit 4 ?L)) :: byte) k \<longleftrightarrow> bit (drop_bit 4 (xs ! i)) k"
    proof (cases "k < 4")
      case True
      then have "(8 * i + (4 + k)) div 8 = i" "(8 * i + (4 + k)) mod 8 = 4 + k" by simp_all
      moreover have "8 * i + (4 + k) < 64" using i True by simp
      ultimately show ?thesis
        unfolding l r using i True by (simp add: bit_lane_of_bytes len bit_and_f0)
    next
      case False
      then have e: "4 + k = (k - 4) + 8" by simp
      have "(4 + k) div 8 = 1" "(4 + k) mod 8 = k - 4"
        using k by (simp_all only: e div_add_self2 mod_add_self2) simp_all
      then have "(8 * i + (4 + k)) div 8 = Suc i" "(8 * i + (4 + k)) mod 8 = k - 4" by simp_all
      moreover have "\<not> bit (xs ! i) (4 + k)" using False by (simp add: bit_byte_ge8)
      moreover have "k - 4 < 4" using k by simp
      ultimately show ?thesis
        unfolding l r by (simp add: bit_lane_of_bytes len bit_and_f0)
    qed
  qed
  then show "le_bytes 8 (drop_bit 4 ?L) ! i = map (drop_bit 4) xs ! i"
    using i by (simp add: le_bytes_nth len)
qed

lemma and_set1:
  "length v = 16 \<Longrightarrow> mm_and_si128 v (mm_set1_epi8 m) = map (\<lambda>x. x AND m) v"
  by (rule nth_equalityI) (simp_all add: mm_and_si128_def mm_set1_epi8_def)

lemma srli_masked:
  assumes "length v = 16"
  shows "mm_srli_epi64 (map (\<lambda>x. x AND 0xf0) v) 4 = map (drop_bit 4) v"
proof -
  have a: "length (take 8 v) = 8" and b: "length (take 8 (drop 8 v)) = 8"
    using assms by simp_all
  have "mm_srli_epi64 (map (\<lambda>x. x AND 0xf0) v) 4
          = map (drop_bit 4) (take 8 v) @ map (drop_bit 4) (take 8 (drop 8 v))"
    unfolding mm_srli_epi64_def take_map drop_map
    by (simp only: srli_lane [OF a] srli_lane [OF b])
  also have "\<dots> = map (drop_bit 4) (take 8 v @ take 8 (drop 8 v))"
    by simp
  also have "take 8 v @ take 8 (drop 8 v) = v"
    using assms by simp
  finally show ?thesis .
qed

lemma unat_nibble: "unat ((y :: byte) AND 0x0f) < 16"
proof -
  have "unat (y AND 0x0f) \<le> unat (0x0f :: byte)"
    by (rule word_and_le1 [THEN word_le_nat_alt [THEN iffD1]])
  then show ?thesis by simp
qed

lemma tl_table_nth: "k < 16 \<Longrightarrow> tl_table c ! k = gf_mul c (of_nat k)"
  by (simp add: tl_table_def)

lemma th_table_nth: "k < 16 \<Longrightarrow> th_table c ! k = gf_mul c (push_bit 4 (of_nat k))"
  by (simp add: th_table_def)

lemma and_0f_idem: "((x :: byte) AND 0x0f) AND 0x0f = x AND 0x0f"
  by (simp add: and.assoc)

lemma shuffle_low:
  "mm_shuffle_epi8 (tl_table c) (map (\<lambda>x. x AND 0x0f) v) = map (\<lambda>x. gf_mul c (x AND 0x0f)) v"
proof -
  have "(if bit (x AND 0x0f) 7 then 0 else tl_table c ! unat ((x AND 0x0f) AND 0x0f))
          = gf_mul c (x AND 0x0f)" for x :: byte
    using unat_nibble [of x] by (simp add: bit_and_0f and_0f_idem tl_table_nth)
  then show ?thesis
    by (simp add: mm_shuffle_epi8_def)
qed

lemma drop4_and_0f: "drop_bit 4 (x :: byte) AND 0x0f = drop_bit 4 x"
  by (rule bit_eqI) (auto simp: bit_and_0f bit_drop_bit_eq dest: bit_imp_le_length)

lemma push4_drop4: "push_bit 4 (drop_bit 4 (x :: byte)) = x AND 0xf0"
  by (rule bit_eqI) (auto simp: bit_and_f0 bit_push_bit_iff bit_drop_bit_eq)

lemma shuffle_high:
  "mm_shuffle_epi8 (th_table c) (map (drop_bit 4) v) = map (\<lambda>x. gf_mul c (x AND 0xf0)) v"
proof -
  have "(if bit (drop_bit 4 x) 7 then 0 else th_table c ! unat (drop_bit 4 x AND 0x0f))
          = gf_mul c (x AND 0xf0)" for x :: byte
  proof -
    have nb: "\<not> bit (drop_bit 4 x) 7"
      by (simp add: bit_drop_bit_eq bit_byte_ge8)
    have "unat (drop_bit 4 x AND 0x0f) < 16" by (rule unat_nibble)
    then have "th_table c ! unat (drop_bit 4 x AND 0x0f)
                 = gf_mul c (push_bit 4 (of_nat (unat (drop_bit 4 x AND 0x0f))))"
      by (rule th_table_nth)
    also have "\<dots> = gf_mul c (x AND 0xf0)"
      by (simp add: drop4_and_0f push4_drop4)
    finally show ?thesis using nb by simp
  qed
  then show ?thesis
    by (simp add: mm_shuffle_epi8_def)
qed

text \<open>One round of the loop on a 16-byte chunk.\<close>

lemma round_value:
  assumes s: "length in2 = 16" and d: "length in1 = 16"
  shows "mm_xor_si128
           (mm_xor_si128
              (mm_shuffle_epi8 (th_table c) (mm_srli_epi64 (mm_and_si128 in2 (mm_set1_epi8 0xf0)) 4))
              (mm_shuffle_epi8 (tl_table c) (mm_and_si128 in2 (mm_set1_epi8 0x0f))))
           in1
         = map2 (\<lambda>d s. d XOR gf_mul c s) in1 in2"
proof -
  have g: "gf_mul c (x AND 0x0f) XOR gf_mul c (x AND 0xf0) = gf_mul c x" for x
    using nibble_split [of x] gf_mul_xor [of c "x AND 0x0f" "x AND 0xf0"]
    by simp
  have g': "(gf_mul c (x AND 0xf0) XOR gf_mul c (x AND 0x0f)) XOR d = d XOR gf_mul c x" for x d
    by (simp only: xor.commute [of "gf_mul c (x AND 0xf0)"] g xor.commute [of _ d])
  show ?thesis
    unfolding and_set1 [OF s] srli_masked [OF s] shuffle_low shuffle_high
    using s d
    by (intro nth_equalityI) (simp_all add: mm_xor_si128_def g')
qed

lemma length_read_bytes: "length (read_bytes mem a n) = n"
  by (simp add: read_bytes_def)

lemma read_bytes_nth: "i < n \<Longrightarrow> read_bytes mem a n ! i = mem (a + i)"
  by (simp add: read_bytes_def)

lemma read_bytes_write_other:
  assumes "b + n \<le> a \<or> a + length v \<le> b"
  shows "read_bytes (write_bytes mem a v) b n = read_bytes mem b n"
  using assms by (intro nth_equalityI) (auto simp: length_read_bytes read_bytes_nth write_bytes_def)

lemma read_bytes_write_same: "read_bytes (write_bytes mem a v) a (length v) = v"
  by (intro nth_equalityI) (simp_all add: length_read_bytes read_bytes_nth write_bytes_def)

lemma write_bytes_append:
  "write_bytes (write_bytes mem a v) (a + length v) w = write_bytes mem a (v @ w)"
  by (rule ext) (auto simp: write_bytes_def nth_append)

lemma write_bytes_append_at:
  "length v = k \<Longrightarrow> write_bytes (write_bytes mem a v) (a + k) w = write_bytes mem a (v @ w)"
  using write_bytes_append [of mem a v w] by simp

lemma write_bytes_read: "write_bytes mem a (read_bytes mem a n) = mem"
  by (rule ext) (auto simp: write_bytes_def length_read_bytes read_bytes_nth)

lemma read_bytes_chunk:
  "k + m \<le> n \<Longrightarrow> read_bytes mem (a + k) m = take m (drop k (read_bytes mem a n))"
  by (intro nth_equalityI) (simp_all add: length_read_bytes read_bytes_nth add.assoc)

lemma map2_chunk:
  "map2 f (take m (drop k xs)) (take m (drop k ys)) = take m (drop k (map2 f xs ys))"
  by (simp add: take_map drop_map take_zip drop_zip)

lemma loadu_tl: "mm_loadu_si128 (tl_table c) = tl_table c"
  by (simp add: mm_loadu_si128_def tl_table_def)

lemma loadu_th: "mm_loadu_si128 (th_table c) = th_table c"
  by (simp add: mm_loadu_si128_def th_table_def)

lemma maddrc256_round:
  assumes a1: "p1 mod 16 = 0" and a2: "p2 mod 16 = 0" and lt: "p1 < end_ptr"
  shows "maddrc256_loop (tl_table c) (th_table c) mem p1 p2 end_ptr
           = maddrc256_loop (tl_table c) (th_table c)
               (write_bytes mem p1
                  (map2 (\<lambda>d s. d XOR gf_mul c s) (read_bytes mem p1 16) (read_bytes mem p2 16)))
               (p1 + 16) (p2 + 16) end_ptr"
proof -
  have l1: "length (read_bytes mem p1 16) = 16" and l2: "length (read_bytes mem p2 16) = 16"
    by (simp_all add: length_read_bytes)
  show ?thesis
    by (subst maddrc256_loop.simps)
       (simp add: lt a1 a2 mm_load_si128_def mm_store_si128_def Let_def round_value [OF l2 l1])
qed

lemma maddrc256_unaligned:
  assumes "p1 mod 16 \<noteq> 0 \<or> p2 mod 16 \<noteq> 0" and "p1 < end_ptr"
  shows "maddrc256_loop t1 t2 mem p1 p2 end_ptr = Inl AlignmentFault"
  using assms
  by (subst maddrc256_loop.simps) (auto simp: mm_load_si128_def mm_store_si128_def Let_def)

lemma maddrc256_loop_correct:
  fixes c :: byte and mem0 :: memory
  defines "R \<equiv> map2 (\<lambda>d s. d XOR gf_mul c s)"
  assumes a1: "r1 mod 16 = 0" and a2: "r2 mod 16 = 0"
    and ov: "r1 \<le> r2 \<or> r2 + len \<le> r1"
  shows "16 * j + 16 * n = len \<Longrightarrow>
         maddrc256_loop (tl_table c) (th_table c)
             (write_bytes mem0 r1 (take (16 * j) (R (read_bytes mem0 r1 len) (read_bytes mem0 r2 len))))
             (r1 + 16 * j) (r2 + 16 * j) (r1 + len)
           = Inr (write_bytes mem0 r1 (R (read_bytes mem0 r1 len) (read_bytes mem0 r2 len)))"
proof (induction n arbitrary: j)
  case 0
  then have "16 * j = len" by simp
  then show ?case
    by (subst maddrc256_loop.simps) (simp add: R_def length_read_bytes)
next
  case (Suc n)
  let ?D = "read_bytes mem0 r1 len"
  let ?S = "read_bytes mem0 r2 len"
  let ?k = "16 * j"
  let ?mem = "write_bytes mem0 r1 (take ?k (R ?D ?S))"
  from Suc.prems have le: "?k + 16 \<le> len" by simp
  have lR: "length (R ?D ?S) = len" by (simp add: R_def length_read_bytes)
  have lt: "length (take ?k (R ?D ?S)) = ?k" using le lR by simp
  have p1: "(r1 + ?k) mod 16 = 0" and p2: "(r2 + ?k) mod 16 = 0"
    using a1 a2 by (simp_all add: mod_add_left_eq)
  have in1: "read_bytes ?mem (r1 + ?k) 16 = take 16 (drop ?k ?D)"
  proof -
    have "r1 + ?k + 16 \<le> r1 \<or> r1 + length (take ?k (R ?D ?S)) \<le> r1 + ?k"
      using lt by simp
    then have "read_bytes ?mem (r1 + ?k) 16 = read_bytes mem0 (r1 + ?k) 16"
      by (rule read_bytes_write_other)
    then show ?thesis using le by (simp add: read_bytes_chunk [of ?k 16 len])
  qed
  have in2: "read_bytes ?mem (r2 + ?k) 16 = take 16 (drop ?k ?S)"
  proof -
    have "r2 + ?k + 16 \<le> r1 \<or> r1 + length (take ?k (R ?D ?S)) \<le> r2 + ?k"
      using ov le lt by auto
    then have "read_bytes ?mem (r2 + ?k) 16 = read_bytes mem0 (r2 + ?k) 16"
      by (rule read_bytes_write_other)
    then show ?thesis using le by (simp add: read_bytes_chunk [of ?k 16 len])
  qed
  have out: "R (take 16 (drop ?k ?D)) (take 16 (drop ?k ?S)) = take 16 (drop ?k (R ?D ?S))"
    unfolding R_def by (rule map2_chunk)
  have w: "write_bytes ?mem (r1 + ?k) (take 16 (drop ?k (R ?D ?S)))
             = write_bytes mem0 r1 (take (16 * Suc j) (R ?D ?S))"
  proof -
    have e: "16 * Suc j = ?k + 16" by simp
    have "write_bytes ?mem (r1 + ?k) (take 16 (drop ?k (R ?D ?S)))
            = write_bytes mem0 r1 (take ?k (R ?D ?S) @ take 16 (drop ?k (R ?D ?S)))"
      using lt by (rule write_bytes_append_at)
    also have "take ?k (R ?D ?S) @ take 16 (drop ?k (R ?D ?S)) = take (16 * Suc j) (R ?D ?S)"
      by (simp only: e take_add)
    finally show ?thesis .
  qed
  have "r1 + ?k < r1 + len" using le by simp
  then have "maddrc256_loop (tl_table c) (th_table c) ?mem (r1 + ?k) (r2 + ?k) (r1 + len)
          = maddrc256_loop (tl_table c) (th_table c)
               (write_bytes ?mem (r1 + ?k)
                  (R (read_bytes ?mem (r1 + ?k) 16) (read_bytes ?mem (r2 + ?k) 16)))
               (r1 + ?k + 16) (r2 + ?k + 16) (r1 + len)"
    unfolding R_def by (rule maddrc256_round [OF p1 p2])
  also have "\<dots> = maddrc256_loop (tl_table c) (th_table c)
               (write_bytes mem0 r1 (take (16 * Suc j) (R ?D ?S)))
               (r1 + 16 * Suc j) (r2 + 16 * Suc j) (r1 + len)"
  proof -
    have "r1 + ?k + 16 = r1 + 16 * Suc j" "r2 + ?k + 16 = r2 + 16 * Suc j" by simp_all
    then show ?thesis by (simp only: in1 in2 out w)
  qed
  also have "\<dots> = Inr (write_bytes mem0 r1 (R ?D ?S))"
    using Suc.prems by (intro Suc.IH) simp
  finally show ?case .
qed

lemma read_bytes_const:
  "(\<And>i. i < n \<Longrightarrow> mem (a + i) = v) \<Longrightarrow> read_bytes mem a n = replicate n v"
  by (intro nth_equalityI) (simp_all add: length_read_bytes read_bytes_nth)

lemma write_bytes_nil: "write_bytes mem a [] = mem"
  by (rule ext) (auto simp: write_bytes_def)

lemma map2_replicate:
  "map2 f (replicate n a) (replicate n b) = replicate n (f a b)"
  by (simp add: zip_replicate)

text \<open>
  Claim C8 (region multiply-add), as stated, fails for regions the aligned loads and
  stores cannot take and for a source that overlaps the destination from below. With
  region1 at address 8 the first load faults. With region1 at 16, region2 at 0 and 32
  bytes, the second round reads the bytes the first round has written: the byte at
  address 32 becomes 4, where \<open>dst[16] XOR 2 \<cdot> src[16]\<close> of the regions before the call
  is 0.
\<close>

theorem maddrc256_shuffle_ssse3_unaligned_or_overlapping:
  "maddrc256_shuffle_ssse3 zero_memory 8 64 2 16 = Inl AlignmentFault
   \<and> maddrc256_shuffle_ssse3 overlap_memory 16 0 2 32
       = Inr (write_bytes (write_bytes overlap_memory 16 (replicate 16 2)) 32 (replicate 16 4))
   \<and> write_bytes (write_bytes overlap_memory 16 (replicate 16 2)) 32 (replicate 16 4) 32 = 4
   \<and> overlap_memory 32 XOR gf_mul 2 (overlap_memory 16) = 0"
proof -
  have g1: "gf_mul 2 1 = 2" by code_simp
  have g2: "gf_mul 2 2 = 4" by code_simp
  have g0: "gf_mul 2 0 = 0" by code_simp
  have a: "maddrc256_shuffle_ssse3 zero_memory 8 64 2 16 = Inl AlignmentFault"
    by (simp add: maddrc256_shuffle_ssse3_def maddrc256_unaligned)
  let ?m1 = "write_bytes overlap_memory 16 (replicate 16 2)"
  let ?m2 = "write_bytes ?m1 32 (replicate 16 4)"
  have r0: "read_bytes overlap_memory 0 16 = replicate 16 1"
    and r16: "read_bytes overlap_memory 16 16 = replicate 16 0"
    by (rule read_bytes_const, simp add: overlap_memory_def)+
  have s16: "read_bytes ?m1 16 16 = replicate 16 2"
    using read_bytes_write_same [of overlap_memory 16 "replicate 16 2"] by simp
  have s32: "read_bytes ?m1 32 16 = replicate 16 0"
    by (rule read_bytes_const) (simp add: write_bytes_def overlap_memory_def)
  have "maddrc256_loop (tl_table 2) (th_table 2) overlap_memory 16 0 48
          = maddrc256_loop (tl_table 2) (th_table 2) ?m1 32 16 48"
    using maddrc256_round [of 16 0 48 2 overlap_memory]
    by (simp add: r0 r16 map2_replicate g1)
  also have "\<dots> = maddrc256_loop (tl_table 2) (th_table 2) ?m2 48 32 48"
    using maddrc256_round [of 32 16 48 2 ?m1]
    by (simp add: s16 s32 map2_replicate g2)
  also have "\<dots> = Inr ?m2"
    by (subst maddrc256_loop.simps) simp
  finally have b: "maddrc256_shuffle_ssse3 overlap_memory 16 0 2 32 = Inr ?m2"
    by (simp add: maddrc256_shuffle_ssse3_def loadu_tl loadu_th)
  have c: "?m2 32 = 4"
    by (simp add: write_bytes_def)
  have d: "overlap_memory 32 XOR gf_mul 2 (overlap_memory 16) = 0"
    by (simp add: overlap_memory_def g0)
  from a b c d show ?thesis by simp
qed

text \<open>
  Claim C8, amended. For every constant \<open>c\<close>, every length \<open>len\<close> that is a multiple of
  16 and regions at addresses that are multiples of 16, where region2 does not start
  below region1 or ends before it, \<open>maddrc256_shuffle_ssse3\<close> replaces each \<open>dst[i]\<close> by
  \<open>dst[i] XOR c \<cdot> src[i]\<close>, the product taken in GF(2^8) with the polynomial 0x11d, and
  leaves the rest of memory as it is; at \<open>c = 0\<close> it leaves memory unchanged and at
  \<open>c = 1\<close> it is the byte-wise XOR.
\<close>

theorem maddrc256_shuffle_ssse3_correct:
  assumes a1: "region1 mod 16 = 0" and a2: "region2 mod 16 = 0"
    and m: "16 dvd len"
    and ov: "region1 \<le> region2 \<or> region2 + len \<le> region1"
  shows "maddrc256_shuffle_ssse3 mem region1 region2 c len
           = Inr (write_bytes mem region1
                    (map2 (\<lambda>d s. d XOR gf_mul c s)
                       (read_bytes mem region1 len) (read_bytes mem region2 len)))
         \<and> read_bytes
              (write_bytes mem region1
                 (map2 (\<lambda>d s. d XOR gf_mul c s)
                    (read_bytes mem region1 len) (read_bytes mem region2 len)))
              region1 len
             = map2 (\<lambda>d s. d XOR gf_mul c s)
                 (read_bytes mem region1 len) (read_bytes mem region2 len)
         \<and> maddrc256_shuffle_ssse3 mem region1 region2 0 len = Inr mem
         \<and> maddrc256_shuffle_ssse3 mem region1 region2 1 len
             = Inr (write_bytes mem region1
                      (map2 (XOR) (read_bytes mem region1 len) (read_bytes mem region2 len)))"
proof -
  let ?D = "read_bytes mem region1 len"
  let ?S = "read_bytes mem region2 len"
  let ?R = "map2 (\<lambda>d s. d XOR gf_mul c s) ?D ?S"
  have lR: "length ?R = len" by (simp add: length_read_bytes)
  from m obtain n where n: "16 * 0 + 16 * n = len" by (auto simp: dvd_def)
  have loop: "maddrc256_loop (tl_table c) (th_table c) mem region1 region2 (region1 + len)
                = Inr (write_bytes mem region1 ?R)"
    using maddrc256_loop_correct [OF a1 a2 ov n, of c mem]
    by (simp add: write_bytes_nil)
  have zero: "map2 (\<lambda>d s. d XOR gf_mul 0 s) ?D ?S = ?D"
    by (intro nth_equalityI) (simp_all add: length_read_bytes gf_mul_zero)
  have one: "map2 (\<lambda>d s. d XOR gf_mul 1 s) ?D ?S = map2 (XOR) ?D ?S"
    by (simp add: gf_mul_one)
  have main: "maddrc256_shuffle_ssse3 mem region1 region2 c len = Inr (write_bytes mem region1 ?R)"
  proof (cases "c = 0")
    case True
    then show ?thesis
      by (simp add: maddrc256_shuffle_ssse3_def zero write_bytes_read)
  next
    case False
    show ?thesis
    proof (cases "c = 1")
      case True
      then show ?thesis
        by (simp add: maddrc256_shuffle_ssse3_def xorr_sse2_def one)
    next
      case False
      with \<open>c \<noteq> 0\<close> show ?thesis
        by (simp add: maddrc256_shuffle_ssse3_def loadu_tl loadu_th loop)
    qed
  qed
  have rd: "read_bytes (write_bytes mem region1 ?R) region1 len = ?R"
    using read_bytes_write_same [of mem region1 ?R] by (simp add: length_read_bytes)
  have c0: "maddrc256_shuffle_ssse3 mem region1 region2 0 len = Inr mem"
    by (simp add: maddrc256_shuffle_ssse3_def)
  have c1: "maddrc256_shuffle_ssse3 mem region1 region2 1 len
             = Inr (write_bytes mem region1 (map2 (XOR) ?D ?S))"
    by (simp add: maddrc256_shuffle_ssse3_def xorr_sse2_def)
  from main rd c0 c1 show ?thesis by simp
qed

text \<open>Claim C8, amended, on 16 bytes: 2 times 0x80 is 0x1d, so 0x01 becomes 0x1c.\<close>

theorem maddrc256_shuffle_ssse3_correct_witness:
  "maddrc256_shuffle_ssse3 example_memory 0 16 2 16
     = Inr (write_bytes example_memory 0 (replicate 16 0x1c))
   \<and> read_bytes (write_bytes example_memory 0 (replicate 16 0x1c)) 0 16 = replicate 16 0x1c
   \<and> maddrc256_shuffle_ssse3 example_memory 0 16 0 16 = Inr example_memory
   \<and> maddrc256_shuffle_ssse3 example_memory 0 16 1 16
       = Inr (write_bytes example_memory 0 (replicate 16 0x81))"
proof -
  have g: "gf_mul 2 0x80 = 0x1d" by code_simp
  have d: "read_bytes example_memory 0 16 = replicate 16 1"
    by (rule read_bytes_const) (simp add: example_memory_def)
  have s: "read_bytes example_memory 16 16 = replicate 16 0x80"
    by (rule read_bytes_const) (simp add: example_memory_def)
  have h: "(0::nat) mod 16 = 0" "(16::nat) mod 16 = 0" "(16::nat) dvd 16"
          "(0::nat) \<le> 16 \<or> (16::nat) + 16 \<le> 0"
    by simp_all
  show ?thesis
    using maddrc256_shuffle_ssse3_correct [OF h, of example_memory 2]
    by (simp add: d s map2_replicate g)
qed

end
